theory Spec2Isabelle
  imports Main "HOL-Library.AList" "HOL-Library.Sublist"
begin

section \<open>Values: JSON documents and Python dictionaries\<close>

text \<open>
  The installer (\<^verbatim>\<open>tools/mcp_installer.py\<close>) moves JSON documents between files,
  subprocess output and Python dictionaries. One datatype serves for the text of a JSON
  document and for the Python value it parses to. An object is a list of pairs in the
  order of the text: a Python \<^verbatim>\<open>dict\<close> keeps insertion order and has no two equal keys, the
  text of a document may repeat a key. Numbers are integers; non-integer numbers, and
  documents nested deeper than the interpreter's recursion limit, are outside the model.
\<close>

datatype json =
    JNull
  | JBool bool
  | JInt int
  | JStr string
  | JArr "json list"
  | JObj "(string \<times> json) list"

text \<open>
  \<^verbatim>\<open>dict(pairs)\<close>, as \<^verbatim>\<open>json.load\<close> builds an object: a repeated key keeps the place of
  its first occurrence and the value of its last (\<open>AList.update\<close> is \<^verbatim>\<open>d[k] = v\<close>).
\<close>

definition dict_of_pairs :: "(string \<times> 'v) list \<Rightarrow> (string \<times> 'v) list" where
  "dict_of_pairs ps = foldl (\<lambda>d kv. AList.update (fst kv) (snd kv) d) [] ps"

text \<open>
  CPython converts an integer from and to decimal text only up to 4300 digits
  (\<^verbatim>\<open>sys.int_max_str_digits\<close>): beyond that \<^verbatim>\<open>json.load\<close>, \<^verbatim>\<open>json.dump\<close> and \<^verbatim>\<open>str\<close>
  raise a \<^verbatim>\<open>ValueError\<close> (which is no \<^verbatim>\<open>JSONDecodeError\<close>). \<open>converts\<close> says that every
  integer of a document is within the limit.
\<close>

definition int_converts :: "int \<Rightarrow> bool" where
  "int_converts i = (\<bar>i\<bar> < 10 ^ 4300)"

primrec converts :: "json \<Rightarrow> bool" where
  "converts JNull = True"
| "converts (JBool b) = True"
| "converts (JInt i) = int_converts i"
| "converts (JStr s) = True"
| "converts (JArr xs) = list_all id (map converts xs)"
| "converts (JObj ps) = list_all id (map snd (map (map_prod id converts) ps))"

text \<open>
  What \<^verbatim>\<open>json.load\<close> / \<^verbatim>\<open>json.loads\<close> build from the text of a document whose integers
  convert.
\<close>

primrec json_loads :: "json \<Rightarrow> json" where
  "json_loads JNull = JNull"
| "json_loads (JBool b) = JBool b"
| "json_loads (JInt i) = JInt i"
| "json_loads (JStr s) = JStr s"
| "json_loads (JArr xs) = JArr (map json_loads xs)"
| "json_loads (JObj ps) = JObj (dict_of_pairs (map (map_prod id json_loads) ps))"

text \<open>
  A value that a Python dictionary can be and that JSON text can carry: no object repeats
  a key, at any depth, and every integer converts.
\<close>

primrec wf_json :: "json \<Rightarrow> bool" where
  "wf_json JNull = True"
| "wf_json (JBool b) = True"
| "wf_json (JInt i) = int_converts i"
| "wf_json (JStr s) = True"
| "wf_json (JArr xs) = list_all id (map wf_json xs)"
| "wf_json (JObj ps) = (distinct (map fst ps) \<and> list_all id (map snd (map (map_prod id wf_json) ps)))"


section \<open>Strings and paths\<close>

text \<open>\<^verbatim>\<open>needle in haystack\<close> on strings; \<^verbatim>\<open>s.startswith(p)\<close> is \<open>prefix p s\<close>.\<close>

fun py_contains :: "string \<Rightarrow> string \<Rightarrow> bool" where
  "py_contains needle [] = (needle = [])"
| "py_contains needle (c # cs) = (prefix needle (c # cs) \<or> py_contains needle cs)"

text \<open>\<^verbatim>\<open>sep.join(parts)\<close>.\<close>

fun join_with :: "string \<Rightarrow> string list \<Rightarrow> string" where
  "join_with sep [] = []"
| "join_with sep [x] = x"
| "join_with sep (x # y # ys) = x @ sep @ join_with sep (y # ys)"

text \<open>
  \<^verbatim>\<open>os.path.join\<close> and \<^verbatim>\<open>os.path.basename\<close> of \<^verbatim>\<open>posixpath\<close> (the separator is \<^verbatim>\<open>/\<close>).
\<close>

definition path_join :: "string \<Rightarrow> string \<Rightarrow> string" where
  "path_join a b =
     (if prefix ''/'' b then b
      else if a = [] \<or> last a = CHR ''/'' then a @ b
      else a @ ''/'' @ b)"

definition basename :: "string \<Rightarrow> string" where
  "basename p = rev (takeWhile (\<lambda>c. c \<noteq> CHR ''/'') (rev p))"

subsection \<open>\<^verbatim>\<open>str()\<close> of a parsed document\<close>

text \<open>
  \<^verbatim>\<open>str\<close> of a dictionary is its \<^verbatim>\<open>repr\<close>. A \<open>char\<close> stands for a code point below
  256. \<^verbatim>\<open>repr\<close> of a string quotes it with \<^verbatim>\<open>'\<close>, or with \<^verbatim>\<open>"\<close> when the string has
  a \<^verbatim>\<open>'\<close> and no \<^verbatim>\<open>"\<close>, and escapes the quote, the backslash and what is not printable.
\<close>

definition hex_digit :: "nat \<Rightarrow> char" where
  "hex_digit n = ''0123456789abcdef'' ! (n mod 16)"

definition py_escape :: "char \<Rightarrow> char \<Rightarrow> string" where
  "py_escape q c =
     (let n = (of_char c :: nat) in
      if c = q \<or> c = CHR 0x5C then [CHR 0x5C, c]
      else if c = CHR 0x09 then [CHR 0x5C, CHR ''t'']
      else if c = CHR 0x0A then [CHR 0x5C, CHR ''n'']
      else if c = CHR 0x0D then [CHR 0x5C, CHR ''r'']
      else if n < 32 \<or> (127 \<le> n \<and> n \<le> 160) \<or> n = 173
        then [CHR 0x5C, CHR ''x'', hex_digit (n div 16), hex_digit n]
      else [c])"

definition str_repr :: "string \<Rightarrow> string" where
  "str_repr s =
     (let q = (if CHR 0x27 \<in> set s \<and> CHR 0x22 \<notin> set s then CHR 0x22 else CHR 0x27)
      in [q] @ concat (map (py_escape q) s) @ [q])"

fun nat_digits :: "nat \<Rightarrow> string" where
  "nat_digits n =
     (if n < 10 then [char_of (48 + n)]
      else nat_digits (n div 10) @ [char_of (48 + n mod 10)])"

declare nat_digits.simps [simp del]

definition int_str :: "int \<Rightarrow> string" where
  "int_str i = (if i < 0 then CHR ''-'' # nat_digits (nat (- i)) else nat_digits (nat i))"

primrec py_repr :: "json \<Rightarrow> string" where
  "py_repr JNull = ''None''"
| "py_repr (JBool b) = (if b then ''True'' else ''False'')"
| "py_repr (JInt i) = int_str i"
| "py_repr (JStr s) = str_repr s"
| "py_repr (JArr xs) = ''['' @ join_with '', '' (map py_repr xs) @ '']''"
| "py_repr (JObj ps) =
     ''{'' @ join_with '', ''
              (map (\<lambda>kv. str_repr (fst kv) @ '': '' @ snd kv) (map (map_prod id py_repr) ps))
       @ ''}''"

definition py_str :: "json \<Rightarrow> string" where
  "py_str j = (case j of JStr s \<Rightarrow> s | _ \<Rightarrow> py_repr j)"

section \<open>The world outside the process\<close>

text \<open>
  Exceptions are values. Every function that touches the file system, runs a subprocess,
  sleeps or logs a warning takes the world and returns it; a function that can raise
  returns \<open>Inl\<close> of the exception.
\<close>

datatype exn =
    CalledProcessError
  | FileNotFoundError
  | PermissionError
  | JSONDecodeError
  | ValueError
  | OSError
  | AttributeError
  | TypeError
  | KeyError
  | IndexError

text \<open>
  The text of a file or of a subprocess's standard output is the text of a JSON document
  or is not JSON.
  A file is absent, cannot be read (\<open>Blocked\<close>: opening or reading it raises an exception
  other than \<^verbatim>\<open>FileNotFoundError\<close>, in any mode: it is a directory, permission is denied,
  its bytes are no text), or holds a text.
  Writing a file that can be opened for reading is another matter (\<open>wstate\<close>): the write
  succeeds, or \<^verbatim>\<open>open(path, 'w')\<close> raises and the file stays as it is (a read-only file, a
  read-only file system), or the file is opened, which empties it, and the write raises
  (a full disk): what is left is not JSON.
  \<^verbatim>\<open>subprocess.run(cmd, check=True, capture_output=True)\<close> finds no executable
  (\<^verbatim>\<open>FileNotFoundError\<close>), exits with a nonzero code (\<^verbatim>\<open>CalledProcessError\<close>), raises
  another exception (\<open>Denied\<close>: \<^verbatim>\<open>PermissionError\<close> for a file on the path that is not
  executable), or completes with its output.
\<close>

datatype content = Json json | NotJson

datatype fstate = Absent | Blocked | Holds content

datatype wstate = Writes | OpenDenied | WriteFails

datatype proc = NotFound | Failed | Denied | Completed content

text \<open>
  What \<^verbatim>\<open>generate_smithery_yaml\<close> puts into \<^verbatim>\<open>smithery_config\<close>: the command and the
  arguments of \<^verbatim>\<open>commandFunction\<close>, the property names of \<^verbatim>\<open>configSchema\<close> and its
  \<^verbatim>\<open>required\<close> list when there is one. The layout of the text of \<^verbatim>\<open>smithery.yaml\<close> is
  not modelled.
\<close>

record smithery =
  sm_command :: string
  sm_args :: "string list"
  sm_properties :: "string list"
  sm_required :: "string list option"

datatype event =
    Ran "string list"
  | Slept
  | Checking string int int
  | Installing string int int
  | LoadConfig
  | SaveConfig json
  | Emitted string string "string list" "(string \<times> string) list"
  | Warned string

text \<open>
  The events: a subprocess was run, \<^verbatim>\<open>time.sleep(1)\<close> returned, an attempt of the
  compliance check or of the install logged its first line (``attempt \<open>i\<close>/\<open>n\<close>''), the
  configuration was loaded or saved, \<^verbatim>\<open>generate_smithery_yaml\<close> was called, a warning
  was logged for a token. Other log lines are not recorded.
  \<open>trace\<close> has the newest event first. \<open>run w n cmd\<close> is the outcome of running \<open>cmd\<close>
  when \<open>n\<close> events have happened, so that the same command can fail now and succeed later.
  \<open>cfg_dir\<close> and \<open>cfg_file\<close> are \<^verbatim>\<open>~/.cursor\<close> and \<^verbatim>\<open>~/.cursor/mcp.json\<close>
  (\<^verbatim>\<open>get_config_path\<close> gives the same path on every platform); \<open>mkdir_raises\<close> says that
  the directory, when it is missing, cannot be made (a file has its name, or its parent
  cannot be written); \<open>cfg_write\<close> is what writing the configuration file does; \<open>files\<close> are the other files
  the program reads, by path; \<open>smithery_yaml\<close> is \<^verbatim>\<open>smithery.yaml\<close> in the current
  directory, \<open>cwd_writable\<close> whether it can be opened for writing.
\<close>

record world =
  trace :: "event list"
  run :: "nat \<Rightarrow> string list \<Rightarrow> proc"
  cfg_dir :: bool
  mkdir_raises :: bool
  cfg_file :: fstate
  cfg_write :: wstate
  path_exists :: "string \<Rightarrow> bool"
  files :: "string \<Rightarrow> fstate"
  cwd_writable :: bool
  smithery_yaml :: "smithery option"

definition emit :: "event \<Rightarrow> world \<Rightarrow> world" where
  "emit e w = w\<lparr>trace := e # trace w\<rparr>"

text \<open>\<^verbatim>\<open>subprocess.run\<close> and \<^verbatim>\<open>time.sleep(1)\<close>.\<close>

definition subprocess_run :: "string list \<Rightarrow> world \<Rightarrow> proc \<times> world" where
  "subprocess_run cmd w = (run w (length (trace w)) cmd, emit (Ran cmd) w)"

definition sleep1 :: "world \<Rightarrow> world" where
  "sleep1 w = emit Slept w"

section \<open>ConfigStore\<close>

text \<open>
  \<^verbatim>\<open>load_config\<close>: when the file is missing, \<^verbatim>\<open>mkdir(parents=True, exist_ok=True)\<close> makes
  the parent directory, or finds it, or raises; then the empty registry is returned and
  nothing is written. An existing file is opened and parsed, and both can raise.
\<close>

definition load_config :: "world \<Rightarrow> (exn + json) \<times> world" where
  "load_config w =
     (let w1 = emit LoadConfig w in
      case cfg_file w of
        Absent \<Rightarrow>
          if cfg_dir w then (Inr (JObj [(''mcpServers'', JObj [])]), w1)
          else if mkdir_raises w then (Inl OSError, w1)
          else (Inr (JObj [(''mcpServers'', JObj [])]), w1\<lparr>cfg_dir := True\<rparr>)
      | Blocked \<Rightarrow> (Inl OSError, w1)
      | Holds NotJson \<Rightarrow> (Inl JSONDecodeError, w1)
      | Holds (Json j) \<Rightarrow>
          if converts j then (Inr (json_loads j), w1) else (Inl ValueError, w1))"

text \<open>
  \<^verbatim>\<open>save_config\<close> opens the file for writing and dumps the dictionary. It makes no
  directory: with no file and no directory \<^verbatim>\<open>open\<close> raises \<^verbatim>\<open>FileNotFoundError\<close>. When
  it raises, the exception comes with the world it leaves: \<^verbatim>\<open>open\<close> has emptied the file
  before the write or \<^verbatim>\<open>json.dump\<close> raises.
\<close>

definition save_config :: "json \<Rightarrow> world \<Rightarrow> (exn \<times> world) + world" where
  "save_config config w =
     (if cfg_file w = Blocked then Inl (OSError, w)
      else if cfg_file w = Absent \<and> \<not> cfg_dir w then Inl (FileNotFoundError, w)
      else
        case cfg_write w of
          OpenDenied \<Rightarrow> Inl (PermissionError, w)
        | WriteFails \<Rightarrow> Inl (OSError, w\<lparr>cfg_file := Holds NotJson\<rparr>)
        | Writes \<Rightarrow>
            if converts config
            then Inr (emit (SaveConfig config) (w\<lparr>cfg_file := Holds (Json config)\<rparr>))
            else Inl (ValueError, w\<lparr>cfg_file := Holds NotJson\<rparr>))"


section \<open>EnvironmentProbe\<close>

record env_status =
  node :: bool
  npm :: bool
  uvx :: bool

text \<open>
  One \<^verbatim>\<open>try\<close> block of \<^verbatim>\<open>check_environment\<close>: the tool's version command. The
  \<^verbatim>\<open>except\<close> clause catches \<^verbatim>\<open>CalledProcessError\<close> and \<^verbatim>\<open>FileNotFoundError\<close> only;
  any other exception leaves \<^verbatim>\<open>check_environment\<close>, and the tools after it are not
  probed.
\<close>

definition probe :: "string \<Rightarrow> world \<Rightarrow> (exn + bool) \<times> world" where
  "probe tool w =
     (case subprocess_run [tool, ''--version''] w of
        (Completed out, w') \<Rightarrow> (Inr True, w')
      | (NotFound, w') \<Rightarrow> (Inr False, w')
      | (Failed, w') \<Rightarrow> (Inr False, w')
      | (Denied, w') \<Rightarrow> (Inl PermissionError, w'))"

definition check_environment :: "world \<Rightarrow> (exn + env_status) \<times> world" where
  "check_environment w =
     (case probe ''node'' w of
        (Inl e, w1) \<Rightarrow> (Inl e, w1)
      | (Inr n, w1) \<Rightarrow>
     (case probe ''npm'' w1 of
        (Inl e, w2) \<Rightarrow> (Inl e, w2)
      | (Inr m, w2) \<Rightarrow>
     (case probe ''uvx'' w2 of
        (Inl e, w3) \<Rightarrow> (Inl e, w3)
      | (Inr u, w3) \<Rightarrow> (Inr \<lparr>node = n, npm = m, uvx = u\<rparr>, w3))))"

section \<open>ComplianceChecker\<close>

text \<open>
  \<^verbatim>\<open>check_package_json\<close>: a missing file and a file that is not JSON give the empty
  dictionary; any other exception of \<^verbatim>\<open>open\<close> or of \<^verbatim>\<open>json.load\<close> is not caught here.
\<close>

definition check_package_json :: "string \<Rightarrow> world \<Rightarrow> exn + json" where
  "check_package_json path w =
     (case files w (path_join path ''package.json'') of
        Absent \<Rightarrow> Inr (JObj [])
      | Blocked \<Rightarrow> Inl OSError
      | Holds NotJson \<Rightarrow> Inr (JObj [])
      | Holds (Json j) \<Rightarrow> if converts j then Inr (json_loads j) else Inl ValueError)"

text \<open>
  The operations of Python the checker applies to a parsed document, with the exception
  each raises on a value of another type: \<^verbatim>\<open>x.get(k, default)\<close>, \<^verbatim>\<open>x.keys()\<close> and
  \<^verbatim>\<open>s in x\<close> (a key of a dictionary, an element of a list, a substring of a string).
\<close>

definition py_get :: "json \<Rightarrow> string \<Rightarrow> json \<Rightarrow> exn + json" where
  "py_get x k dflt =
     (case x of
        JObj d \<Rightarrow> Inr (case map_of d k of Some v \<Rightarrow> v | None \<Rightarrow> dflt)
      | _ \<Rightarrow> Inl AttributeError)"

definition py_keys :: "json \<Rightarrow> exn + string list" where
  "py_keys x = (case x of JObj d \<Rightarrow> Inr (map fst d) | _ \<Rightarrow> Inl AttributeError)"

definition py_in :: "string \<Rightarrow> json \<Rightarrow> exn + bool" where
  "py_in s x =
     (case x of
        JObj d \<Rightarrow> Inr (s \<in> set (map fst d))
      | JArr xs \<Rightarrow> Inr (JStr s \<in> set xs)
      | JStr t \<Rightarrow> Inr (py_contains s t)
      | _ \<Rightarrow> Inl TypeError)"

text \<open>
  Lines 113 to 127 of \<^verbatim>\<open>is_mcp_compliant\<close>: the three indicators, evaluated in the order
  of the source; \<^verbatim>\<open>and\<close> does not evaluate its right operand when the left one is false.
  \<^verbatim>\<open>str(package_info)\<close> raises on an integer that does not convert.
\<close>

definition mcp_indicators :: "json \<Rightarrow> exn + bool" where
  "mcp_indicators package_info =
     (case py_get package_info ''dependencies'' (JObj []) of
        Inl e \<Rightarrow> Inl e
      | Inr deps \<Rightarrow>
     (case py_keys deps of
        Inl e \<Rightarrow> Inl e
      | Inr ks \<Rightarrow>
     (if \<not> converts package_info then Inl ValueError
      else
      let has_mcp_deps = list_ex (prefix ''@modelcontextprotocol/'') ks;
          has_mcp_schema = py_contains ''modelcontextprotocol'' (py_str package_info)
      in
      case py_in ''capabilities'' package_info of
        Inl e \<Rightarrow> Inl e
      | Inr False \<Rightarrow> Inr (has_mcp_deps \<or> has_mcp_schema)
      | Inr True \<Rightarrow>
     (case py_get package_info ''capabilities'' (JObj []) of
        Inl e \<Rightarrow> Inl e
      | Inr caps \<Rightarrow>
     (case py_in ''tools'' caps of
        Inl e \<Rightarrow> Inl e
      | Inr has_mcp_fields \<Rightarrow> Inr (has_mcp_deps \<or> has_mcp_schema \<or> has_mcp_fields))))))"

text \<open>\<^verbatim>\<open>npm view <name> --json\<close> and \<^verbatim>\<open>json.loads\<close> of its output.\<close>

definition npm_view :: "string \<Rightarrow> world \<Rightarrow> (exn + json) \<times> world" where
  "npm_view package_name w =
     (case subprocess_run [''npm'', ''view'', package_name, ''--json''] w of
        (NotFound, w') \<Rightarrow> (Inl FileNotFoundError, w')
      | (Failed, w') \<Rightarrow> (Inl CalledProcessError, w')
      | (Denied, w') \<Rightarrow> (Inl PermissionError, w')
      | (Completed NotJson, w') \<Rightarrow> (Inl JSONDecodeError, w')
      | (Completed (Json j), w') \<Rightarrow>
          if converts j then (Inr (json_loads j), w') else (Inl ValueError, w'))"

text \<open>
  How one attempt gets \<^verbatim>\<open>package_info\<close>: \<^verbatim>\<open>if local_path:\<close> holds for a path that is
  neither \<^verbatim>\<open>None\<close> nor empty.
\<close>

definition resolve_manifest :: "string \<Rightarrow> string option \<Rightarrow> world \<Rightarrow> (exn + json) \<times> world" where
  "resolve_manifest package_name local_path w =
     (case local_path of
        None \<Rightarrow> npm_view package_name w
      | Some p \<Rightarrow> if p \<noteq> [] then (check_package_json p w, w) else npm_view package_name w)"

text \<open>The body of the \<^verbatim>\<open>try\<close> of \<^verbatim>\<open>is_mcp_compliant\<close>, after its log line.\<close>

definition compliance_attempt :: "string \<Rightarrow> string option \<Rightarrow> world \<Rightarrow> (exn + bool) \<times> world" where
  "compliance_attempt package_name local_path w =
     (case resolve_manifest package_name local_path w of
        (Inl e, w') \<Rightarrow> (Inl e, w')
      | (Inr package_info, w') \<Rightarrow> (mcp_indicators package_info, w'))"

text \<open>
  \<^verbatim>\<open>for attempt in range(max_retries)\<close>, from \<open>attempt\<close> on. The result is \<open>Some\<close> of the
  boolean a \<^verbatim>\<open>return\<close> statement gives; a loop that ends without one leaves the function
  by its end, which gives \<^verbatim>\<open>None\<close>.
\<close>

function compliant_loop ::
  "string \<Rightarrow> string option \<Rightarrow> int \<Rightarrow> int \<Rightarrow> world \<Rightarrow> bool option \<times> world" where
  "compliant_loop package_name local_path max_retries attempt w =
     (if attempt < max_retries then
        (case compliance_attempt package_name local_path
                (emit (Checking package_name (attempt + 1) max_retries) w) of
           (Inr is_compliant, w') \<Rightarrow> (Some is_compliant, w')
         | (Inl e, w') \<Rightarrow>
             if attempt < max_retries - 1
             then compliant_loop package_name local_path max_retries (attempt + 1) (sleep1 w')
             else (Some False, w'))
      else (None, w))"
  by pat_completeness auto
termination
  by (relation "measure (\<lambda>(n, p, m, a, w). nat (m - a))") auto

declare compliant_loop.simps [simp del]

definition is_mcp_compliant ::
  "string \<Rightarrow> string option \<Rightarrow> int \<Rightarrow> world \<Rightarrow> bool option \<times> world" where
  "is_mcp_compliant package_name local_path max_retries w =
     compliant_loop package_name local_path max_retries 0 w"

section \<open>ManifestEmitter\<close>

text \<open>
  \<^verbatim>\<open>generate_smithery_yaml\<close>: \<^verbatim>\<open>args or []\<close>, \<^verbatim>\<open>if env:\<close> (a dictionary that is neither
  \<^verbatim>\<open>None\<close> nor empty), and the one statement that can raise, opening the file; the
  \<^verbatim>\<open>except\<close> turns that into \<^verbatim>\<open>False\<close>. The name is used in log lines only.
\<close>

definition generate_smithery_yaml ::
  "string \<Rightarrow> string \<Rightarrow> string list option \<Rightarrow> (string \<times> string) list option \<Rightarrow> world
     \<Rightarrow> bool \<times> world" where
  "generate_smithery_yaml package_name command args env w =
     (let args' = (case args of None \<Rightarrow> [] | Some a \<Rightarrow> a);
          env' = (case env of None \<Rightarrow> [] | Some e \<Rightarrow> e);
          smithery_config =
            \<lparr>sm_command = command, sm_args = args', sm_properties = map fst env',
             sm_required = (if env' = [] then None else Some (map fst env'))\<rparr>;
          w1 = emit (Emitted package_name command args' env') w
      in if cwd_writable w then (True, w1\<lparr>smithery_yaml := Some smithery_config\<rparr>)
         else (False, w1))"

section \<open>Installer\<close>

text \<open>
  The \<^verbatim>\<open>server_config\<close> dictionary both installers build; the \<^verbatim>\<open>env\<close> key is added under
  \<^verbatim>\<open>if env:\<close>.
\<close>

definition server_config :: "string \<Rightarrow> string list \<Rightarrow> (string \<times> string) list option \<Rightarrow> json" where
  "server_config command args env =
     JObj ([(''command'', JStr command), (''args'', JArr (map JStr args)), (''type'', JStr ''stdio'')]
           @ (case env of
                None \<Rightarrow> []
              | Some e \<Rightarrow> if e \<noteq> [] then [(''env'', JObj (map (\<lambda>kv. (fst kv, JStr (snd kv))) e))] else []))"

text \<open>\<^verbatim>\<open>x[k]\<close> with a string \<open>k\<close>.\<close>

definition py_getitem :: "json \<Rightarrow> string \<Rightarrow> exn + json" where
  "py_getitem x k =
     (case x of
        JObj d \<Rightarrow> (case map_of d k of Some v \<Rightarrow> Inr v | None \<Rightarrow> Inl KeyError)
      | _ \<Rightarrow> Inl TypeError)"

text \<open>
  \<^verbatim>\<open>x[key] = v\<close>, the result as \<^verbatim>\<open>json.dump\<close> writes it. In a dictionary a string key is
  replaced in place or appended; a key that is an integer, a boolean or \<^verbatim>\<open>None\<close> is new
  (every key loaded from JSON is a string) and is written as its JSON text; a list or a
  dictionary is not hashable. In a list an integer (or boolean) key is an index, negative
  from the end.
\<close>

definition py_setitem :: "json \<Rightarrow> json \<Rightarrow> json \<Rightarrow> exn + json" where
  "py_setitem x key v =
     (case x of
        JObj d \<Rightarrow>
          (case key of
             JStr s \<Rightarrow> Inr (JObj (AList.update s v d))
           | JInt i \<Rightarrow> Inr (JObj (d @ [(int_str i, v)]))
           | JBool b \<Rightarrow> Inr (JObj (d @ [(if b then ''true'' else ''false'', v)]))
           | JNull \<Rightarrow> Inr (JObj (d @ [(''null'', v)]))
           | _ \<Rightarrow> Inl TypeError)
      | JArr xs \<Rightarrow>
          (case (case key of JInt i \<Rightarrow> Some i | JBool b \<Rightarrow> Some (if b then 1 else 0) | _ \<Rightarrow> None) of
             None \<Rightarrow> Inl TypeError
           | Some i \<Rightarrow>
               (let j = (if i < 0 then i + int (length xs) else i)
                in if 0 \<le> j \<and> j < int (length xs) then Inr (JArr (xs[nat j := v]))
                   else Inl IndexError))
      | _ \<Rightarrow> Inl TypeError)"

text \<open>\<^verbatim>\<open>config["mcpServers"][name] = server_config\<close>.\<close>

definition register_server :: "json \<Rightarrow> json \<Rightarrow> json \<Rightarrow> exn + json" where
  "register_server config name entry =
     (case py_getitem config ''mcpServers'' of
        Inl e \<Rightarrow> Inl e
      | Inr servers \<Rightarrow>
     (case py_setitem servers name entry of
        Inl e \<Rightarrow> Inl e
      | Inr servers' \<Rightarrow>
     (case config of
        JObj d \<Rightarrow> Inr (JObj (AList.update ''mcpServers'' servers' d))
      | _ \<Rightarrow> Inl TypeError)))"

text \<open>
  The body of the \<^verbatim>\<open>try\<close> of \<^verbatim>\<open>install_local_mcp_server\<close>. The compliance check is called
  with its default of three attempts: the installer does not pass its own \<^verbatim>\<open>max_retries\<close>.
\<close>

definition install_local_body ::
  "string \<Rightarrow> string list option \<Rightarrow> (string \<times> string) list option \<Rightarrow> world
     \<Rightarrow> (exn + bool) \<times> world" where
  "install_local_body path args env w =
     (if \<not> path_exists w path then (Inr False, w)
      else
     (case is_mcp_compliant (basename path) (Some path) 3 w of (compliant, w1) \<Rightarrow>
      if compliant \<noteq> Some True then (Inr False, w1)
      else
     (case load_config w1 of
        (Inl e, w2) \<Rightarrow> (Inl e, w2)
      | (Inr config, w2) \<Rightarrow>
     (case check_package_json path w2 of
        Inl e \<Rightarrow> (Inl e, w2)
      | Inr package_info \<Rightarrow>
     (case py_get package_info ''name'' (JStr (basename path)) of
        Inl e \<Rightarrow> (Inl e, w2)
      | Inr name \<Rightarrow>
     (let args' = [path_join path ''index.js''] @ (case args of None \<Rightarrow> [] | Some a \<Rightarrow> a)
      in
      case register_server config name (server_config ''node'' args' env) of
        Inl e \<Rightarrow> (Inl e, w2)
      | Inr config' \<Rightarrow>
     (case save_config config' w2 of
        Inl (e, w3) \<Rightarrow> (Inl e, w3)
      | Inr w3 \<Rightarrow>
          (Inr True, snd (generate_smithery_yaml (py_str name) ''node'' (Some args') env w3)))))))))"

definition install_local_mcp_server ::
  "string \<Rightarrow> string list option \<Rightarrow> (string \<times> string) list option \<Rightarrow> int \<Rightarrow> world
     \<Rightarrow> bool \<times> world" where
  "install_local_mcp_server path args env max_retries w =
     (case install_local_body path args env w of
        (Inr result, w') \<Rightarrow> (result, w')
      | (Inl e, w') \<Rightarrow> (False, w'))"

text \<open>The body of the \<^verbatim>\<open>try\<close> of \<^verbatim>\<open>install_mcp_server\<close>, after its log line.\<close>

definition install_attempt ::
  "string \<Rightarrow> string list option \<Rightarrow> (string \<times> string) list option \<Rightarrow> world
     \<Rightarrow> (exn + bool) \<times> world" where
  "install_attempt name args env w =
     (case check_environment w of
        (Inl e, w1) \<Rightarrow> (Inl e, w1)
      | (Inr env_status, w1) \<Rightarrow>
      if \<not> node env_status \<or> \<not> npm env_status then (Inr False, w1)
      else
     (case is_mcp_compliant name None 3 w1 of (compliant, w2) \<Rightarrow>
      if compliant \<noteq> Some True then (Inr False, w2)
      else
     (case load_config w2 of
        (Inl e, w3) \<Rightarrow> (Inl e, w3)
      | (Inr config, w3) \<Rightarrow>
     (let cmd = (if npm env_status then ''npx'' else ''uvx'');
          args' = [''-y'', name] @ (case args of None \<Rightarrow> [] | Some a \<Rightarrow> a)
      in
      case register_server config (JStr name) (server_config cmd args' env) of
        Inl e \<Rightarrow> (Inl e, w3)
      | Inr config' \<Rightarrow>
     (case save_config config' w3 of
        Inl (e, w4) \<Rightarrow> (Inl e, w4)
      | Inr w4 \<Rightarrow>
          (Inr True, snd (generate_smithery_yaml name cmd (Some args') env w4)))))))"

function install_loop ::
  "string \<Rightarrow> string list option \<Rightarrow> (string \<times> string) list option \<Rightarrow> int \<Rightarrow> int \<Rightarrow> world
     \<Rightarrow> bool option \<times> world" where
  "install_loop name args env max_retries attempt w =
     (if attempt < max_retries then
        (case install_attempt name args env
                (emit (Installing name (attempt + 1) max_retries) w) of
           (Inr result, w') \<Rightarrow> (Some result, w')
         | (Inl e, w') \<Rightarrow>
             if attempt < max_retries - 1
             then install_loop name args env max_retries (attempt + 1) (sleep1 w')
             else (Some False, w'))
      else (None, w))"
  by pat_completeness auto
termination
  by (relation "measure (\<lambda>(n, a, e, m, i, w). nat (m - i))") auto

declare install_loop.simps [simp del]

definition install_mcp_server ::
  "string \<Rightarrow> string list option \<Rightarrow> (string \<times> string) list option \<Rightarrow> int \<Rightarrow> world
     \<Rightarrow> bool option \<times> world" where
  "install_mcp_server name args env max_retries w = install_loop name args env max_retries 0 w"

section \<open>CLI front end\<close>

text \<open>
  A command line, after \<^verbatim>\<open>argparse\<close> has accepted it: the subcommand with its positional
  argument and its options (\<open>None\<close> for an option that is not given; \<^verbatim>\<open>nargs="+"\<close> gives
  a list).
\<close>

datatype cli =
    Install string "string list option" "string list option"
  | Local string "string list option" "string list option"
  | Url string "string list option" "string list option" bool
  | Supabase string string "string option" "string option"
  | Smithery string "string option" "string list option" "string list option"
  | NoSubcommand

text \<open>
  The namespace \<^verbatim>\<open>parse_args\<close> returns; an attribute the chosen sub-parser does not
  define is \<open>None\<close> here, and reading it raises \<^verbatim>\<open>AttributeError\<close> (for \<^verbatim>\<open>args\<close> and
  \<^verbatim>\<open>env\<close>, \<open>None\<close> is also the value of an option that is not given; \<^verbatim>\<open>main\<close> reads
  \<^verbatim>\<open>args.args\<close> only where the attribute exists).
\<close>

record namespace =
  command :: "string option"
  name_attr :: "string option"
  path_attr :: "string option"
  url_attr :: "string option"
  args_attr :: "string list option"
  env_attr :: "string list option"
  auto_detect_attr :: "bool option"

definition no_attrs :: namespace where
  "no_attrs =
     \<lparr>command = None, name_attr = None, path_attr = None, url_attr = None,
      args_attr = None, env_attr = None, auto_detect_attr = None\<rparr>"

text \<open>
  \<^verbatim>\<open>parser.parse_args()\<close> for the parsers \<^verbatim>\<open>main\<close> builds. \<^verbatim>\<open>add_subparsers(dest="command")\<close>
  stores the name of the subcommand in \<^verbatim>\<open>command\<close>; the attributes of the sub-parser are
  then copied over the namespace. The \<^verbatim>\<open>smithery\<close> sub-parser has an option
  \<^verbatim>\<open>--command\<close> with \<^verbatim>\<open>default="npx"\<close>, whose attribute is \<^verbatim>\<open>command\<close> too: its value
  replaces the name of the subcommand.
\<close>

definition parse_args :: "cli \<Rightarrow> namespace" where
  "parse_args argv =
     (case argv of
        Install n a e \<Rightarrow>
          no_attrs\<lparr>command := Some ''install'', name_attr := Some n, args_attr := a, env_attr := e\<rparr>
      | Local p a e \<Rightarrow>
          no_attrs\<lparr>command := Some ''local'', path_attr := Some p, args_attr := a, env_attr := e\<rparr>
      | Url u a e d \<Rightarrow>
          no_attrs\<lparr>command := Some ''url'', url_attr := Some u, args_attr := a, env_attr := e,
                   auto_detect_attr := Some d\<rparr>
      | Supabase u k r a \<Rightarrow>
          no_attrs\<lparr>command := Some ''supabase'', url_attr := Some u\<rparr>
      | Smithery n c a e \<Rightarrow>
          no_attrs\<lparr>command := Some (case c of None \<Rightarrow> ''npx'' | Some x \<Rightarrow> x),
                   name_attr := Some n, args_attr := a, env_attr := e\<rparr>
      | NoSubcommand \<Rightarrow> no_attrs)"

text \<open>\<^verbatim>\<open>env_var.split("=", 1)\<close> of a token that has an \<^verbatim>\<open>=\<close>.\<close>

definition split_eq :: "string \<Rightarrow> string \<times> string" where
  "split_eq s = (takeWhile (\<lambda>c. c \<noteq> CHR ''='') s, tl (dropWhile (\<lambda>c. c \<noteq> CHR ''='') s))"

text \<open>The loop of \<^verbatim>\<open>main\<close> over \<^verbatim>\<open>args.env\<close>; \<open>Warned\<close> is the \<^verbatim>\<open>logger.warning\<close>.\<close>

fun env_loop ::
  "string list \<Rightarrow> (string \<times> string) list \<Rightarrow> world \<Rightarrow> (string \<times> string) list \<times> world" where
  "env_loop [] env_dict w = (env_dict, w)"
| "env_loop (env_var # rest) env_dict w =
     (if CHR ''='' \<in> set env_var
      then (case split_eq env_var of
              (key, val) \<Rightarrow> env_loop rest (AList.update key val env_dict) w)
      else env_loop rest env_dict (emit (Warned env_var) w))"

definition process_env ::
  "string list option \<Rightarrow> world \<Rightarrow> (string \<times> string) list \<times> world" where
  "process_env env w = (case env of None \<Rightarrow> ([], w) | Some tokens \<Rightarrow> env_loop tokens [] w)"

text \<open>
  \<^verbatim>\<open>s.replace(old, new)\<close> for a non-empty \<open>old\<close>, and the raw-content URL that
  \<^verbatim>\<open>fetch_package_metadata\<close> builds from a GitHub URL.
\<close>

fun py_replace :: "string \<Rightarrow> string \<Rightarrow> string \<Rightarrow> string" where
  "py_replace old new [] = []"
| "py_replace old new (c # cs) =
     (if old \<noteq> [] \<and> prefix old (c # cs)
      then new @ py_replace old new (drop (length old) (c # cs))
      else c # py_replace old new cs)"

definition raw_url :: "string \<Rightarrow> string" where
  "raw_url url =
     (let r = py_replace ''github.com'' ''raw.githubusercontent.com'' url
      in if suffix ''package.json'' r then r else path_join r ''package.json'')"

text \<open>
  What \<^verbatim>\<open>fetch_package_metadata\<close> does to the world. Its body is one \<^verbatim>\<open>try\<close> whose
  \<^verbatim>\<open>except Exception\<close> returns a dictionary, so it raises nothing; it runs one
  subprocess at most, \<^verbatim>\<open>curl\<close> for a URL with \<^verbatim>\<open>github.com\<close> in it and \<^verbatim>\<open>npm view\<close> for a
  name that does not start with \<^verbatim>\<open>http\<close>. The dictionary it returns (the name and the
  environment variables it guesses from the manifest) is not modelled.
\<close>

definition fetch_package_metadata_world :: "string \<Rightarrow> world \<Rightarrow> world" where
  "fetch_package_metadata_world url w =
     (if py_contains ''github.com'' url then snd (subprocess_run [''curl'', ''-s'', raw_url url] w)
      else if \<not> prefix ''http'' url then snd (subprocess_run [''npm'', ''view'', url, ''--json''] w)
      else w)"

text \<open>
  How the process ends: \<^verbatim>\<open>sys.exit\<close> with a code, or an exception nothing catches. With
  \<^verbatim>\<open>url --auto-detect\<close> the model follows \<^verbatim>\<open>main\<close> up to the point where the result of
  \<^verbatim>\<open>fetch_package_metadata\<close> is used: through \<^verbatim>\<open>git clone\<close>, which \<^verbatim>\<open>main\<close> runs with
  \<^verbatim>\<open>check=True\<close> outside any \<^verbatim>\<open>try\<close>, and not into the install that follows
  (\<open>NotModelled\<close>). The \<^verbatim>\<open>supabase\<close> subcommand (\<^verbatim>\<open>install_supabase_mcp\<close>) is not
  modelled either.
\<close>

datatype outcome = Exit nat | Uncaught exn | NotModelled

definition main :: "cli \<Rightarrow> world \<Rightarrow> outcome \<times> world" where
  "main argv w =
     (let args = parse_args argv in
      case process_env (env_attr args) w of (env_dict, w1) \<Rightarrow>
     (case command args of
        None \<Rightarrow> (Exit 1, w1)
      | Some c \<Rightarrow>
      if c = ''install'' then
        (case name_attr args of
           None \<Rightarrow> (Uncaught AttributeError, w1)
         | Some n \<Rightarrow>
             (case install_mcp_server n (args_attr args) (Some env_dict) 3 w1 of
                (success, w2) \<Rightarrow> (Exit (if success = Some True then 0 else 1), w2)))
      else if c = ''local'' then
        (case path_attr args of
           None \<Rightarrow> (Uncaught AttributeError, w1)
         | Some p \<Rightarrow>
             (case install_local_mcp_server p (args_attr args) (Some env_dict) 3 w1 of
                (success, w2) \<Rightarrow> (Exit (if success then 0 else 1), w2)))
      else if c = ''url'' then
        (case auto_detect_attr args of
           None \<Rightarrow> (Uncaught AttributeError, w1)
         | Some True \<Rightarrow>
             (case url_attr args of
                None \<Rightarrow> (Uncaught AttributeError, w1)
              | Some u \<Rightarrow>
                  (let w2 = fetch_package_metadata_world u w1 in
                   if py_contains ''github.com'' u then
                     (case subprocess_run [''git'', ''clone'', u, basename u] w2 of
                        (Completed out, w3) \<Rightarrow> (NotModelled, w3)
                      | (NotFound, w3) \<Rightarrow> (Uncaught FileNotFoundError, w3)
                      | (Failed, w3) \<Rightarrow> (Uncaught CalledProcessError, w3)
                      | (Denied, w3) \<Rightarrow> (Uncaught PermissionError, w3))
                   else (NotModelled, w2)))
         | Some False \<Rightarrow>
             (case url_attr args of
                None \<Rightarrow> (Uncaught AttributeError, w1)
              | Some u \<Rightarrow>
                  (case install_mcp_server u (args_attr args) (Some env_dict) 3 w1 of
                     (success, w2) \<Rightarrow> (Exit (if success = Some True then 0 else 1), w2))))
      else if c = ''supabase'' then
        (case url_attr args of
           None \<Rightarrow> (Uncaught AttributeError, w1)
         | Some u \<Rightarrow> (NotModelled, w1))
      else if c = ''smithery'' then
        (case name_attr args of
           None \<Rightarrow> (Uncaught AttributeError, w1)
         | Some n \<Rightarrow>
             (case generate_smithery_yaml n c (args_attr args) (Some env_dict) w1 of
                (success, w2) \<Rightarrow> (Exit (if success then 0 else 1), w2)))
      else (Exit 1, w1)))"

section \<open>Vocabulary of the properties\<close>

text \<open>How often something happened: the events of a kind in the trace.\<close>

definition count_events :: "(event \<Rightarrow> bool) \<Rightarrow> world \<Rightarrow> nat" where
  "count_events P w = length (filter P (trace w))"

definition is_check_attempt :: "event \<Rightarrow> bool" where
  "is_check_attempt e = (case e of Checking n i m \<Rightarrow> True | _ \<Rightarrow> False)"

definition is_install_attempt :: "event \<Rightarrow> bool" where
  "is_install_attempt e = (case e of Installing n i m \<Rightarrow> True | _ \<Rightarrow> False)"

definition is_sleep :: "event \<Rightarrow> bool" where
  "is_sleep e = (e = Slept)"

definition is_load :: "event \<Rightarrow> bool" where
  "is_load e = (e = LoadConfig)"

definition is_save :: "event \<Rightarrow> bool" where
  "is_save e = (case e of SaveConfig c \<Rightarrow> True | _ \<Rightarrow> False)"

definition is_emit :: "event \<Rightarrow> bool" where
  "is_emit e = (case e of Emitted n c a v \<Rightarrow> True | _ \<Rightarrow> False)"

text \<open>A result that is an exception.\<close>

definition raised :: "(exn + 'a) \<times> world \<Rightarrow> bool" where
  "raised r = (case fst r of Inl e \<Rightarrow> True | Inr x \<Rightarrow> False)"

text \<open>The entry of a server in a registry document, under \<^verbatim>\<open>mcpServers\<close>.\<close>

definition server_entry :: "json \<Rightarrow> string \<Rightarrow> json option" where
  "server_entry config k =
     (case config of
        JObj d \<Rightarrow> (case map_of d ''mcpServers'' of Some (JObj servers) \<Rightarrow> map_of servers k | _ \<Rightarrow> None)
      | _ \<Rightarrow> None)"

text \<open>
  Whether \<^verbatim>\<open>save_config\<close> can open the configuration file for writing and write it.
\<close>

definition config_writable :: "world \<Rightarrow> bool" where
  "config_writable w =
     (cfg_write w = Writes
      \<and> (case cfg_file w of Absent \<Rightarrow> cfg_dir w | Blocked \<Rightarrow> False | Holds t \<Rightarrow> True))"

text \<open>Two worlds that differ in the trace at most.\<close>

definition same_but_trace :: "world \<Rightarrow> world \<Rightarrow> bool" where
  "same_but_trace w w' =
     (run w' = run w \<and> cfg_dir w' = cfg_dir w \<and> mkdir_raises w' = mkdir_raises w
      \<and> cfg_file w' = cfg_file w \<and> cfg_write w' = cfg_write w
      \<and> path_exists w' = path_exists w \<and> files w' = files w
      \<and> cwd_writable w' = cwd_writable w \<and> smithery_yaml w' = smithery_yaml w)"

text \<open>What \<^verbatim>\<open>load_config\<close> returns in a world, when it returns.\<close>

definition loaded_registry :: "world \<Rightarrow> json option" where
  "loaded_registry w =
     (case cfg_file w of
        Absent \<Rightarrow>
          if \<not> cfg_dir w \<and> mkdir_raises w then None
          else Some (JObj [(''mcpServers'', JObj [])])
      | Blocked \<Rightarrow> None
      | Holds NotJson \<Rightarrow> None
      | Holds (Json j) \<Rightarrow> if converts j then Some (json_loads j) else None)"

text \<open>
  \<^verbatim>\<open>load_config\<close> returns a dictionary with a dictionary under \<^verbatim>\<open>mcpServers\<close>: the
  configuration file is absent and its directory is there or can be made, or the file
  holds such a JSON object, within what \<^verbatim>\<open>json.load\<close> converts.
\<close>

definition registry_loadable :: "world \<Rightarrow> bool" where
  "registry_loadable w =
     (case loaded_registry w of
        Some (JObj d) \<Rightarrow> (case map_of d ''mcpServers'' of Some (JObj servers) \<Rightarrow> True | _ \<Rightarrow> False)
      | _ \<Rightarrow> False)"

text \<open>The key \<^verbatim>\<open>json.dump\<close> writes for a dictionary key.\<close>

definition key_text :: "json \<Rightarrow> string" where
  "key_text key =
     (case key of
        JStr s \<Rightarrow> s
      | JInt i \<Rightarrow> int_str i
      | JBool b \<Rightarrow> (if b then ''true'' else ''false'')
      | _ \<Rightarrow> ''null'')"

text \<open>The name under which the local-path install registers the package of a path.\<close>

definition local_server_name :: "string \<Rightarrow> world \<Rightarrow> json" where
  "local_server_name path w =
     (case check_package_json path w of
        Inr (JObj d) \<Rightarrow> (case map_of d ''name'' of Some v \<Rightarrow> v | None \<Rightarrow> JStr (basename path))
      | _ \<Rightarrow> JStr (basename path))"

subsection \<open>The attempts of a run\<close>

text \<open>
  \<open>check_world n lp m w a\<close> is the world in which attempt number \<open>a + 1\<close> of
  \<^verbatim>\<open>is_mcp_compliant\<close> starts when every attempt before it raised: each of them is
  followed by \<^verbatim>\<open>time.sleep(1)\<close>. \<open>check_attempt\<close> is that attempt, \<open>manifest_at\<close> what
  it resolves, \<open>check_raises_before\<close> says that the attempts before it raised.
\<close>

primrec check_world :: "string \<Rightarrow> string option \<Rightarrow> int \<Rightarrow> world \<Rightarrow> nat \<Rightarrow> world" where
  "check_world n lp m w 0 = w"
| "check_world n lp m w (Suc a) =
     sleep1 (snd (compliance_attempt n lp (emit (Checking n (int a + 1) m) (check_world n lp m w a))))"

definition check_attempt ::
  "string \<Rightarrow> string option \<Rightarrow> int \<Rightarrow> world \<Rightarrow> nat \<Rightarrow> (exn + bool) \<times> world" where
  "check_attempt n lp m w a =
     compliance_attempt n lp (emit (Checking n (int a + 1) m) (check_world n lp m w a))"

definition manifest_at ::
  "string \<Rightarrow> string option \<Rightarrow> int \<Rightarrow> world \<Rightarrow> nat \<Rightarrow> exn + json" where
  "manifest_at n lp m w a =
     fst (resolve_manifest n lp (emit (Checking n (int a + 1) m) (check_world n lp m w a)))"

definition check_raises_before ::
  "string \<Rightarrow> string option \<Rightarrow> int \<Rightarrow> world \<Rightarrow> nat \<Rightarrow> bool" where
  "check_raises_before n lp m w a = list_all (\<lambda>b. raised (check_attempt n lp m w b)) [0..<a]"

text \<open>
  The same for the attempts of \<^verbatim>\<open>install_mcp_server\<close>; \<open>environment_at\<close> is what
  \<^verbatim>\<open>check_environment\<close> returns in attempt \<open>a + 1\<close>, and the world it leaves.
\<close>

primrec install_world ::
  "string \<Rightarrow> string list option \<Rightarrow> (string \<times> string) list option \<Rightarrow> int \<Rightarrow> world \<Rightarrow> nat
     \<Rightarrow> world" where
  "install_world n ar e m w 0 = w"
| "install_world n ar e m w (Suc a) =
     sleep1 (snd (install_attempt n ar e (emit (Installing n (int a + 1) m) (install_world n ar e m w a))))"


definition environment_at ::
  "string \<Rightarrow> string list option \<Rightarrow> (string \<times> string) list option \<Rightarrow> int \<Rightarrow> world \<Rightarrow> nat
     \<Rightarrow> (exn + env_status) \<times> world" where
  "environment_at n ar e m w a =
     check_environment (emit (Installing n (int a + 1) m) (install_world n ar e m w a))"


text \<open>
  Resolving the manifest raises whenever it is tried: the \<^verbatim>\<open>package.json\<close> of the local
  path cannot be read or has an integer that does not convert, or \<^verbatim>\<open>npm view\<close> never
  completes with JSON output that converts.
\<close>

definition manifest_always_raises :: "string \<Rightarrow> string option \<Rightarrow> world \<Rightarrow> bool" where
  "manifest_always_raises package_name local_path w =
     (let view_raises =
            (\<forall>t. case run w t [''npm'', ''view'', package_name, ''--json''] of
                    Completed (Json j) \<Rightarrow> \<not> converts j
                  | _ \<Rightarrow> True);
          read_raises =
            (\<lambda>p. case files w (path_join p ''package.json'') of
                    Blocked \<Rightarrow> True
                  | Holds (Json j) \<Rightarrow> \<not> converts j
                  | _ \<Rightarrow> False)
      in case local_path of
           None \<Rightarrow> view_raises
         | Some p \<Rightarrow> if p \<noteq> [] then read_raises p else view_raises)"

section \<open>The compliance markers in the words of the specification\<close>

text \<open>
  For a manifest that is an object with the pairs \<open>d\<close>: some key of its dependencies map
  starts with the vendor prefix; its text contains the protocol name; it has a
  capabilities object with a \<^verbatim>\<open>tools\<close> key.
\<close>

definition marker_dependency :: "(string \<times> json) list \<Rightarrow> bool" where
  "marker_dependency d =
     (case map_of d ''dependencies'' of
        Some (JObj deps) \<Rightarrow> list_ex (prefix ''@modelcontextprotocol/'') (map fst deps)
      | _ \<Rightarrow> False)"

definition marker_text :: "(string \<times> json) list \<Rightarrow> bool" where
  "marker_text d = py_contains ''modelcontextprotocol'' (py_str (JObj d))"

definition marker_tools_key :: "(string \<times> json) list \<Rightarrow> bool" where
  "marker_tools_key d =
     (case map_of d ''capabilities'' of
        Some (JObj caps) \<Rightarrow> ''tools'' \<in> set (map fst caps)
      | _ \<Rightarrow> False)"

text \<open>
  The third marker as the code has it: \<^verbatim>\<open>tools\<close> is in the value of \<^verbatim>\<open>capabilities\<close>, as
  a key of an object, as an element of a list or as a part of a string.
\<close>

definition marker_tools_in :: "(string \<times> json) list \<Rightarrow> bool" where
  "marker_tools_in d =
     (case map_of d ''capabilities'' of
        Some (JObj caps) \<Rightarrow> ''tools'' \<in> set (map fst caps)
      | Some (JArr xs) \<Rightarrow> JStr ''tools'' \<in> set xs
      | Some (JStr t) \<Rightarrow> py_contains ''tools'' t
      | _ \<Rightarrow> False)"

text \<open>
  The manifests whose inspection raises nothing: \<^verbatim>\<open>dependencies\<close>, when present, is an
  object, and \<^verbatim>\<open>capabilities\<close>, when present, is an object, a list or a string.
\<close>

definition inspectable :: "(string \<times> json) list \<Rightarrow> bool" where
  "inspectable d =
     ((case map_of d ''dependencies'' of None \<Rightarrow> True | Some (JObj deps) \<Rightarrow> True | _ \<Rightarrow> False)
      \<and> (case map_of d ''capabilities'' of
            None \<Rightarrow> True
          | Some (JObj caps) \<Rightarrow> True
          | Some (JArr xs) \<Rightarrow> True
          | Some (JStr t) \<Rightarrow> True
          | _ \<Rightarrow> False))"

section \<open>Example worlds\<close>

text \<open>
  A manifest with the dependency of the specification's example, and a machine on which
  every command succeeds and \<^verbatim>\<open>npm view\<close> prints that manifest; there is no
  \<^verbatim>\<open>~/.cursor\<close> yet (it can be made, and files in it can be written) and no other file.
\<close>

definition sdk_manifest :: json where
  "sdk_manifest =
     JObj [(''name'', JStr ''example-pkg''),
           (''dependencies'', JObj [(''@modelcontextprotocol/sdk'', JStr ''1.0'')])]"

definition fresh_world :: world where
  "fresh_world =
     \<lparr>trace = [], run = (\<lambda>n cmd. Completed (Json sdk_manifest)), cfg_dir = False,
      mkdir_raises = False, cfg_file = Absent, cfg_write = Writes,
      path_exists = (\<lambda>p. False), files = (\<lambda>p. Absent),
      cwd_writable = True, smithery_yaml = None\<rparr>"

text \<open>The same machine with a configuration file that is not JSON.\<close>

definition broken_config_world :: world where
  "broken_config_world = fresh_world\<lparr>cfg_dir := True, cfg_file := Holds NotJson\<rparr>"

text \<open>A machine on which every command exits with a nonzero code.\<close>

definition failing_world :: world where
  "failing_world = fresh_world\<lparr>run := (\<lambda>n cmd. Failed)\<rparr>"

text \<open>
  A machine on which the commands run before two events have happened fail, and one on
  which the command run after the first event raises \<^verbatim>\<open>PermissionError\<close>: the first
  \<^verbatim>\<open>npm view\<close> of a compliance check, and the first probe of an install.
\<close>

definition flaky_world :: world where
  "flaky_world = fresh_world\<lparr>run := (\<lambda>t cmd. if t < 2 then Failed else Completed (Json sdk_manifest))\<rparr>"


text \<open>A machine without network: \<^verbatim>\<open>git clone\<close> exits with a nonzero code.\<close>

definition clone_fails_world :: world where
  "clone_fails_world =
     fresh_world\<lparr>run := (\<lambda>t cmd. if take 2 cmd = [''git'', ''clone''] then Failed
                                  else Completed (Json sdk_manifest))\<rparr>"

text \<open>A registry with one server.\<close>

definition example_registry :: json where
  "example_registry =
     JObj [(''mcpServers'',
            JObj [(''a'', server_config ''npx'' [''-y'', ''a''] (Some [(''K'', ''v'')]))])]"

text \<open>
  A machine on which \<^verbatim>\<open>npm view\<close> prints a manifest whose \<^verbatim>\<open>capabilities\<close> is a list, and
  one with a local package whose \<^verbatim>\<open>dependencies\<close> is \<^verbatim>\<open>null\<close>.
\<close>

definition tools_list_manifest :: "(string \<times> json) list" where
  "tools_list_manifest = [(''name'', JStr ''pkg''), (''capabilities'', JArr [JStr ''tools''])]"

definition tools_list_world :: world where
  "tools_list_world = fresh_world\<lparr>run := (\<lambda>n cmd. Completed (Json (JObj tools_list_manifest)))\<rparr>"

definition null_deps_manifest :: "(string \<times> json) list" where
  "null_deps_manifest =
     [(''name'', JStr ''pkg''), (''dependencies'', JNull),
      (''keywords'', JArr [JStr ''modelcontextprotocol''])]"

definition null_deps_world :: world where
  "null_deps_world =
     fresh_world\<lparr>path_exists := (\<lambda>p. p = ''srv''),
                 files := (\<lambda>p. if p = ''srv/package.json'' then Holds (Json (JObj null_deps_manifest))
                               else Absent)\<rparr>"

text \<open>
  A machine with a registry in its configuration file and a local package in \<^verbatim>\<open>srv\<close>;
  \<^verbatim>\<open>npm view\<close> prints the manifest of the specification's example. And the same machine
  with a configuration file that can be read and not written.
\<close>

definition local_manifest :: json where
  "local_manifest =
     JObj [(''name'', JStr ''local-srv''),
           (''dependencies'', JObj [(''@modelcontextprotocol/sdk'', JStr ''1.0'')])]"

definition stocked_world :: world where
  "stocked_world =
     fresh_world\<lparr>cfg_dir := True, cfg_file := Holds (Json example_registry),
                 path_exists := (\<lambda>p. p = ''srv''),
                 files := (\<lambda>p. if p = ''srv/package.json'' then Holds (Json local_manifest)
                               else Absent)\<rparr>"

definition read_only_world :: world where
  "read_only_world = stocked_world\<lparr>cfg_write := OpenDenied\<rparr>"
section \<open>Round trip of the registry through the configuration file\<close>

lemma update_fresh: "k \<notin> fst ` set al \<Longrightarrow> AList.update k v al = al @ [(k, v)]"
  by (induction al) auto

lemma foldl_update_distinct:
  "distinct (map fst (acc @ ps)) \<Longrightarrow>
   foldl (\<lambda>d kv. AList.update (fst kv) (snd kv) d) acc ps = acc @ ps"
proof (induction ps arbitrary: acc)
  case Nil
  then show ?case by simp
next
  case (Cons p ps)
  have fresh: "fst p \<notin> fst ` set acc" using Cons.prems by auto
  have "distinct (map fst ((acc @ [p]) @ ps))" using Cons.prems by simp
  from Cons.IH [OF this] show ?case
    by (simp add: update_fresh [OF fresh])
qed

lemma dict_of_pairs_distinct: "distinct (map fst ps) \<Longrightarrow> dict_of_pairs ps = ps"
  unfolding dict_of_pairs_def using foldl_update_distinct [of "[]" ps] by simp

text \<open>Parsing the text of a value without repeated keys gives the value back.\<close>

lemma json_loads_wf: "wf_json j \<Longrightarrow> json_loads j = j"
proof (induction j)
  case (JArr xs)
  then show ?case by (simp add: list_all_iff map_idI)
next
  case (JObj ps)
  have d: "distinct (map fst ps)" using JObj.prems by simp
  have "map (map_prod id json_loads) ps = ps"
  proof (rule map_idI)
    fix p assume p: "p \<in> set ps"
    obtain k v where kv: "p = (k, v)" by (cases p)
    have "wf_json v" using JObj.prems p kv by (force simp: list_all_iff)
    moreover have "v \<in> Basic_BNFs.snds p" using kv by simp
    ultimately have "json_loads v = v" using JObj.IH p by blast
    then show "map_prod id json_loads p = p" using kv by simp
  qed
  then show ?case using d by (simp add: dict_of_pairs_distinct)
qed simp_all

text \<open>A well-formed value has no integer beyond what \<^verbatim>\<open>json\<close> converts.\<close>

lemma wf_json_converts: "wf_json j \<Longrightarrow> converts j"
proof (induction j)
  case (JArr xs)
  then show ?case by (simp add: list_all_iff)
next
  case (JObj ps)
  have "converts v" if "(k, v) \<in> set ps" for k v
  proof -
    have "wf_json v" using JObj.prems that by (force simp: list_all_iff)
    moreover have "v \<in> Basic_BNFs.snds (k, v)" by simp
    ultimately show ?thesis using JObj.IH that by blast
  qed
  then show ?case by (auto simp: list_all_iff)
qed simp_all


text \<open>
  Claim C8. For every well-formed registry \<open>R\<close> (a value without repeated keys, so one
  that a Python dictionary can be), where the configuration file can be written, saving
  \<open>R\<close> completes and loading afterwards returns \<open>R\<close>: \<^verbatim>\<open>load(save(R)) == R\<close>.
\<close>

theorem save_then_load:
  assumes "wf_json R" and "config_writable w"
  shows "\<exists>w'. save_config R w = Inr w' \<and> fst (load_config w') = Inr R"
  using assms wf_json_converts [of R]
  by (cases "cfg_file w")
     (auto simp: save_config_def load_config_def config_writable_def emit_def Let_def json_loads_wf)

theorem save_then_load_witness:
  "wf_json example_registry \<and> config_writable broken_config_world
   \<and> (\<exists>w'. save_config example_registry broken_config_world = Inr w'
            \<and> fst (load_config w') = Inr example_registry)"
proof -
  have a: "wf_json example_registry"
    by (simp add: example_registry_def server_config_def int_converts_def)
  have b: "config_writable broken_config_world"
    by (simp add: config_writable_def broken_config_world_def fresh_world_def)
  show ?thesis using a b save_then_load [OF a b] by simp
qed

section \<open>Events and what leaves the world alone\<close>

lemma emit_frame [simp]:
  "run (emit e w) = run w" "files (emit e w) = files w" "cfg_file (emit e w) = cfg_file w"
  "cfg_dir (emit e w) = cfg_dir w" "path_exists (emit e w) = path_exists w"
  "cwd_writable (emit e w) = cwd_writable w" "smithery_yaml (emit e w) = smithery_yaml w"
  "mkdir_raises (emit e w) = mkdir_raises w" "cfg_write (emit e w) = cfg_write w"
  "trace (emit e w) = e # trace w"
  by (simp_all add: emit_def)

lemma count_events_emit [simp]:
  "count_events P (emit e w) = (if P e then Suc (count_events P w) else count_events P w)"
  by (simp add: count_events_def)

lemma event_kinds [simp]:
  "is_check_attempt (Checking n i m)" "\<not> is_check_attempt Slept" "\<not> is_check_attempt (Ran c)"
  "\<not> is_check_attempt (Installing n i m)" "\<not> is_check_attempt LoadConfig"
  "\<not> is_check_attempt (SaveConfig j)" "\<not> is_check_attempt (Emitted n s a v)"
  "\<not> is_check_attempt (Warned t)"
  "is_install_attempt (Installing n i m)" "\<not> is_install_attempt Slept" "\<not> is_install_attempt (Ran c)"
  "\<not> is_install_attempt (Checking n i m)" "\<not> is_install_attempt LoadConfig"
  "\<not> is_install_attempt (SaveConfig j)" "\<not> is_install_attempt (Emitted n s a v)"
  "\<not> is_install_attempt (Warned t)"
  "is_sleep Slept" "\<not> is_sleep (Checking n i m)" "\<not> is_sleep (Ran c)"
  "\<not> is_sleep (Installing n i m)" "\<not> is_sleep LoadConfig"
  "\<not> is_sleep (SaveConfig j)" "\<not> is_sleep (Emitted n s a v)" "\<not> is_sleep (Warned t)"
  "is_load LoadConfig" "\<not> is_load (Checking n i m)" "\<not> is_load (Ran c)"
  "\<not> is_load (Installing n i m)" "\<not> is_load Slept"
  "\<not> is_load (SaveConfig j)" "\<not> is_load (Emitted n s a v)" "\<not> is_load (Warned t)"
  "is_save (SaveConfig j)" "\<not> is_save (Checking n i m)" "\<not> is_save (Ran c)"
  "\<not> is_save (Installing n i m)" "\<not> is_save Slept"
  "\<not> is_save LoadConfig" "\<not> is_save (Emitted n s a v)" "\<not> is_save (Warned t)"
  "is_emit (Emitted n s a v)" "\<not> is_emit (Checking n i m)" "\<not> is_emit (Ran c)"
  "\<not> is_emit (Installing n i m)" "\<not> is_emit Slept"
  "\<not> is_emit LoadConfig" "\<not> is_emit (SaveConfig j)" "\<not> is_emit (Warned t)"
  by (simp_all add: is_check_attempt_def is_install_attempt_def is_sleep_def is_load_def
                    is_save_def is_emit_def)

section \<open>EnvMap\<close>

lemma env_loop_map:
  "map_of (fst (env_loop tokens d w)) =
   map_of (rev (map split_eq (filter (\<lambda>t. CHR ''='' \<in> set t) tokens)) @ d)"
proof (induction tokens arbitrary: d w)
  case Nil
  then show ?case by simp
next
  case (Cons t ts)
  show ?case
  proof (cases "CHR ''='' \<in> set t")
    case True
    obtain k v where kv: "split_eq t = (k, v)" by (cases "split_eq t")
    show ?thesis using True kv Cons.IH [of "AList.update k v d" w]
      by (simp add: update_conv' map_add_upd_left fun_eq_iff map_add_def split: option.splits)
  next
    case False
    then show ?thesis using Cons.IH by simp
  qed
qed

lemma env_loop_distinct:
  "distinct (map fst d) \<Longrightarrow> distinct (map fst (fst (env_loop tokens d w)))"
proof (induction tokens arbitrary: d w)
  case Nil
  then show ?case by simp
next
  case (Cons t ts)
  then show ?case by (auto simp: distinct_update split: prod.splits)
qed

lemma env_loop_trace:
  "trace (snd (env_loop tokens d w)) =
   rev (map Warned (filter (\<lambda>t. CHR ''='' \<notin> set t) tokens)) @ trace w"
proof (induction tokens arbitrary: d w)
  case Nil
  then show ?case by simp
next
  case (Cons t ts)
  then show ?case by (auto split: prod.splits)
qed

text \<open>
  Claim C7. The environment map built from the tokens given on the command line maps a
  key to the value of the last token with that key (\<open>map_of\<close> takes the first pair of the
  reversed list) and has every key once; a token without \<^verbatim>\<open>=\<close> adds nothing to the map and
  is logged as a warning, in the order of the tokens, and raises nothing. The tokens
  \<^verbatim>\<open>A=1 B=2 bad A=3\<close> give \<^verbatim>\<open>{A: "3", B: "2"}\<close> and one warning, for \<^verbatim>\<open>bad\<close>.
\<close>

theorem env_map_last_write_wins:
  "map_of (fst (process_env (Some tokens) w)) =
     map_of (rev (map split_eq (filter (\<lambda>t. CHR ''='' \<in> set t) tokens)))
   \<and> distinct (map fst (fst (process_env (Some tokens) w)))
   \<and> trace (snd (process_env (Some tokens) w)) =
       rev (map Warned (filter (\<lambda>t. CHR ''='' \<notin> set t) tokens)) @ trace w
   \<and> fst (process_env (Some [''A=1'', ''B=2'', ''bad'', ''A=3'']) w) = [(''A'', ''3''), (''B'', ''2'')]
   \<and> trace (snd (process_env (Some [''A=1'', ''B=2'', ''bad'', ''A=3'']) w)) = Warned ''bad'' # trace w"
proof -
  have 1: "map_of (fst (process_env (Some tokens) w)) =
     map_of (rev (map split_eq (filter (\<lambda>t. CHR ''='' \<in> set t) tokens)))"
    using env_loop_map [of tokens "[]" w] by (simp add: process_env_def)
  have 2: "distinct (map fst (fst (process_env (Some tokens) w)))"
    using env_loop_distinct [of "[]" tokens w] by (simp add: process_env_def)
  have 3: "trace (snd (process_env (Some tokens) w)) =
       rev (map Warned (filter (\<lambda>t. CHR ''='' \<notin> set t) tokens)) @ trace w"
    by (simp add: process_env_def env_loop_trace)
  have 4: "fst (process_env (Some [''A=1'', ''B=2'', ''bad'', ''A=3'']) w) = [(''A'', ''3''), (''B'', ''2'')]"
    by (simp add: process_env_def split_eq_def)
  have 5: "trace (snd (process_env (Some [''A=1'', ''B=2'', ''bad'', ''A=3'']) w)) = Warned ''bad'' # trace w"
    by (simp add: process_env_def split_eq_def)
  show ?thesis using 1 2 3 4 5 by blast
qed

section \<open>Local install of a missing path\<close>

text \<open>
  Claim C6. When the path does not exist, the local-path install returns \<^verbatim>\<open>False\<close>, the
  configuration file and its directory are as before, and nothing is added to the trace:
  the configuration is neither loaded nor saved.
\<close>

theorem local_install_missing_path:
  assumes "\<not> path_exists w path"
  shows "fst (install_local_mcp_server path args env max_retries w) = False
       \<and> cfg_file (snd (install_local_mcp_server path args env max_retries w)) = cfg_file w
       \<and> cfg_dir (snd (install_local_mcp_server path args env max_retries w)) = cfg_dir w
       \<and> trace (snd (install_local_mcp_server path args env max_retries w)) = trace w"
  using assms by (simp add: install_local_mcp_server_def install_local_body_def)

theorem local_install_missing_path_witness:
  "\<not> path_exists fresh_world ''./server''
   \<and> fst (install_local_mcp_server ''./server'' None None 3 fresh_world) = False
   \<and> cfg_file (snd (install_local_mcp_server ''./server'' None None 3 fresh_world)) = cfg_file fresh_world
   \<and> cfg_dir (snd (install_local_mcp_server ''./server'' None None 3 fresh_world)) = cfg_dir fresh_world
   \<and> trace (snd (install_local_mcp_server ''./server'' None None 3 fresh_world)) = trace fresh_world"
proof -
  have h: "\<not> path_exists fresh_world ''./server''" by (simp add: fresh_world_def)
  show ?thesis using h local_install_missing_path [OF h, of None None 3] by simp
qed

section \<open>The retry loops\<close>

text \<open>A loop returns by a \<^verbatim>\<open>return\<close> statement exactly when it makes an attempt.\<close>

lemma compliant_loop_none:
  "fst (compliant_loop n lp m a w) = None \<longleftrightarrow> \<not> a < m"
proof (induction n lp m a w rule: compliant_loop.induct)
  case (1 n lp m a w)
  show ?case
    apply (subst compliant_loop.simps)
    using 1 by (auto split: prod.splits sum.splits)
qed

lemma install_loop_none:
  "fst (install_loop n ar e m a w) = None \<longleftrightarrow> \<not> a < m"
proof (induction n ar e m a w rule: install_loop.induct)
  case (1 n ar e m a w)
  show ?case
    apply (subst install_loop.simps)
    using 1 by (auto split: prod.splits sum.splits)
qed

text \<open>
  Claim C10. \<^verbatim>\<open>is_mcp_compliant\<close> and \<^verbatim>\<open>install_mcp_server\<close> return a boolean exactly
  when \<open>max_retries\<close> is at least 1. With \<open>max_retries = 0\<close> the body of the loop is not
  entered (the world, with its trace, is as before) and the result is \<^verbatim>\<open>None\<close>.
\<close>

theorem boolean_result_iff_an_attempt:
  "((\<exists>b. fst (is_mcp_compliant n lp m w) = Some b) \<longleftrightarrow> 1 \<le> m)
   \<and> ((\<exists>b. fst (install_mcp_server n ar e m w) = Some b) \<longleftrightarrow> 1 \<le> m)
   \<and> is_mcp_compliant n lp 0 w = (None, w)
   \<and> install_mcp_server n ar e 0 w = (None, w)"
proof -
  have 1: "(\<exists>b. fst (is_mcp_compliant n lp m w) = Some b) \<longleftrightarrow> 1 \<le> m"
    using compliant_loop_none [of n lp m 0 w] by (auto simp: is_mcp_compliant_def)
  have 2: "(\<exists>b. fst (install_mcp_server n ar e m w) = Some b) \<longleftrightarrow> 1 \<le> m"
    using install_loop_none [of n ar e m 0 w] by (auto simp: install_mcp_server_def)
  have 3: "is_mcp_compliant n lp 0 w = (None, w)"
    by (simp add: is_mcp_compliant_def compliant_loop.simps)
  have 4: "install_mcp_server n ar e 0 w = (None, w)"
    by (simp add: install_mcp_server_def install_loop.simps)
  show ?thesis using 1 2 3 4 by blast
qed


section \<open>Compliance check when the manifest cannot be resolved\<close>

lemma resolve_manifest_frame:
  "run (snd (resolve_manifest n lp w)) = run w \<and> files (snd (resolve_manifest n lp w)) = files w
   \<and> count_events is_check_attempt (snd (resolve_manifest n lp w)) = count_events is_check_attempt w
   \<and> count_events is_sleep (snd (resolve_manifest n lp w)) = count_events is_sleep w"
  by (auto simp: resolve_manifest_def npm_view_def subprocess_run_def
           split: option.splits proc.splits content.splits)

lemma compliance_attempt_frame:
  "run (snd (compliance_attempt n lp w)) = run w \<and> files (snd (compliance_attempt n lp w)) = files w
   \<and> count_events is_check_attempt (snd (compliance_attempt n lp w)) = count_events is_check_attempt w
   \<and> count_events is_sleep (snd (compliance_attempt n lp w)) = count_events is_sleep w"
  using resolve_manifest_frame [of n lp w]
  by (auto simp: compliance_attempt_def split: prod.splits sum.splits)

lemma resolve_manifest_raises:
  assumes "manifest_always_raises n lp w0" and "run w = run w0" and "files w = files w0"
  shows "\<exists>e. fst (resolve_manifest n lp w) = Inl e"
proof -
  have view: "\<exists>e. fst (npm_view n w) = Inl e"
    if "\<forall>t. case run w0 t [''npm'', ''view'', n, ''--json''] of
               Completed (Json j) \<Rightarrow> \<not> converts j | _ \<Rightarrow> True"
    using that [rule_format, of "length (trace w)"] assms(2)
    by (auto simp: npm_view_def subprocess_run_def split: proc.splits content.splits)
  show ?thesis
  proof (cases lp)
    case None
    then show ?thesis using assms(1) view
      by (simp add: manifest_always_raises_def resolve_manifest_def)
  next
    case (Some p)
    show ?thesis
    proof (cases "p = []")
      case True
      then show ?thesis using Some assms(1) view
        by (simp add: manifest_always_raises_def resolve_manifest_def)
    next
      case False
      then show ?thesis using Some assms(1,3)
        by (auto simp: manifest_always_raises_def resolve_manifest_def check_package_json_def
                 split: fstate.splits content.splits)
    qed
  qed
qed

lemma compliance_attempt_raises:
  assumes "manifest_always_raises n lp w0" and "run w = run w0" and "files w = files w0"
  shows "\<exists>e. fst (compliance_attempt n lp w) = Inl e"
  using resolve_manifest_raises [OF assms]
  by (auto simp: compliance_attempt_def split: prod.splits sum.splits)

lemma compliant_loop_all_raise:
  "manifest_always_raises n lp w0 \<Longrightarrow> run w = run w0 \<Longrightarrow> files w = files w0 \<Longrightarrow> a < m \<Longrightarrow>
         fst (compliant_loop n lp m a w) = Some False
       \<and> count_events is_check_attempt (snd (compliant_loop n lp m a w))
           = count_events is_check_attempt w + nat (m - a)
       \<and> count_events is_sleep (snd (compliant_loop n lp m a w))
           = count_events is_sleep w + (nat (m - a) - 1)"
proof (induction n lp m a w rule: compliant_loop.induct)
  case (1 n lp m a w)
  let ?w1 = "emit (Checking n (a + 1) m) w"
  obtain r w' where att: "compliance_attempt n lp ?w1 = (r, w')"
    by (cases "compliance_attempt n lp ?w1")
  have "\<exists>e. fst (compliance_attempt n lp ?w1) = Inl e"
    using compliance_attempt_raises [OF "1.prems"(1), of ?w1] "1.prems" by simp
  then obtain e where r: "r = Inl e" using att by auto
  have fr: "run w' = run w0" "files w' = files w0"
       "count_events is_check_attempt w' = Suc (count_events is_check_attempt w)"
       "count_events is_sleep w' = count_events is_sleep w"
    using compliance_attempt_frame [of n lp ?w1] att "1.prems"
    by simp_all
  show ?case
  proof (cases "a < m - 1")
    case True
    have ih: "fst (compliant_loop n lp m (a + 1) (sleep1 w')) = Some False
       \<and> count_events is_check_attempt (snd (compliant_loop n lp m (a + 1) (sleep1 w')))
           = count_events is_check_attempt (sleep1 w') + nat (m - (a + 1))
       \<and> count_events is_sleep (snd (compliant_loop n lp m (a + 1) (sleep1 w')))
           = count_events is_sleep (sleep1 w') + (nat (m - (a + 1)) - 1)"
      using "1.IH" [OF "1.prems"(4) att [symmetric] r True "1.prems"(1)] fr True
      by (simp add: sleep1_def)
    have step: "compliant_loop n lp m a w = compliant_loop n lp m (a + 1) (sleep1 w')"
      by (subst compliant_loop.simps) (simp add: "1.prems" att r True)
    have ar: "nat (m - a) = Suc (nat (m - (a + 1)))" "nat (m - (a + 1)) > 0" using True by auto
    show ?thesis using ih fr ar
      by (simp add: step sleep1_def)
  next
    case False
    have step: "compliant_loop n lp m a w = (Some False, w')"
      by (subst compliant_loop.simps) (simp add: "1.prems" att r False)
    have "nat (m - a) = 1" using False "1.prems" by auto
    then show ?thesis using fr by (simp add: step)
  qed
qed

text \<open>
  Claim C3 at \<open>max_retries = 0\<close>: resolving the manifest raises whenever it is tried,
  the loop makes no attempt, and the function falls off its end: the result is \<^verbatim>\<open>None\<close>
  and not \<^verbatim>\<open>False\<close>, against its \<^verbatim>\<open>-> bool\<close> and the \<^verbatim>\<open>return False\<close> it has for
  the attempts that are used up.
\<close>

theorem no_attempt_no_false:
  "manifest_always_raises ''pkg'' None failing_world
   \<and> is_mcp_compliant ''pkg'' None 0 failing_world = (None, failing_world)
   \<and> fst (is_mcp_compliant ''pkg'' None 0 failing_world) \<noteq> Some False"
  by (simp add: manifest_always_raises_def failing_world_def fresh_world_def
                is_mcp_compliant_def compliant_loop.simps)

text \<open>
  For \<open>max_retries\<close> of at least 1 the check does what claim C3 says: when resolving the
  manifest raises on every attempt, it makes \<open>max_retries\<close> attempts, sleeps one second
  between two attempts (\<open>max_retries - 1\<close> times) and returns \<^verbatim>\<open>False\<close>. No exception
  leaves it: the result is always a value.
\<close>

lemma compliance_retries_then_false:
  assumes "1 \<le> max_retries" and "manifest_always_raises n lp w"
  shows "fst (is_mcp_compliant n lp max_retries w) = Some False
       \<and> count_events is_check_attempt (snd (is_mcp_compliant n lp max_retries w))
           = count_events is_check_attempt w + nat max_retries
       \<and> count_events is_sleep (snd (is_mcp_compliant n lp max_retries w))
           = count_events is_sleep w + (nat max_retries - 1)"
proof -
  have "0 < max_retries" using assms(1) by simp
  from compliant_loop_all_raise [OF assms(2) refl refl this]
  show ?thesis by (simp add: is_mcp_compliant_def)
qed

lemma compliance_retries_then_false_example:
  "manifest_always_raises ''pkg'' None failing_world
   \<and> fst (is_mcp_compliant ''pkg'' None 3 failing_world) = Some False
   \<and> count_events is_check_attempt (snd (is_mcp_compliant ''pkg'' None 3 failing_world)) = 3
   \<and> count_events is_sleep (snd (is_mcp_compliant ''pkg'' None 3 failing_world)) = 2"
proof -
  have a: "(1::int) \<le> 3" by simp
  have b: "manifest_always_raises ''pkg'' None failing_world"
    by (simp add: manifest_always_raises_def failing_world_def fresh_world_def)
  have c: "count_events is_check_attempt failing_world = 0" "count_events is_sleep failing_world = 0"
    by (simp_all add: count_events_def failing_world_def fresh_world_def)
  show ?thesis using b c compliance_retries_then_false [OF a b] by simp
qed

section \<open>The attempts of the compliance check\<close>

text \<open>
  While the attempts raise, the loop goes on to the next one after a sleep: the run from
  the start is the run of the loop from attempt \<open>a + 1\<close>, in the world the earlier
  attempts left.
\<close>

lemma check_raises_before_Suc:
  "check_raises_before n lp m w (Suc a)
   \<longleftrightarrow> check_raises_before n lp m w a \<and> raised (check_attempt n lp m w a)"
  by (auto simp: check_raises_before_def)

lemma compliant_loop_skip:
  "int a < m \<Longrightarrow> check_raises_before n lp m w a \<Longrightarrow>
   compliant_loop n lp m 0 w = compliant_loop n lp m (int a) (check_world n lp m w a)"
proof (induction a)
  case 0
  then show ?case by simp
next
  case (Suc a)
  have lt: "int a < m" "int a < m - 1" using Suc.prems(1) by simp_all
  have rb: "check_raises_before n lp m w a" and ra: "raised (check_attempt n lp m w a)"
    using Suc.prems(2) by (simp_all add: check_raises_before_Suc)
  obtain r w' where att: "check_attempt n lp m w a = (r, w')"
    by (cases "check_attempt n lp m w a")
  obtain e where r: "r = Inl e" using ra att by (cases r) (simp_all add: raised_def)
  have att': "compliance_attempt n lp (emit (Checking n (int a + 1) m) (check_world n lp m w a))
              = (Inl e, w')"
    using att r by (simp add: check_attempt_def)
  have "compliant_loop n lp m (int a) (check_world n lp m w a)
        = compliant_loop n lp m (int a + 1) (sleep1 w')"
    by (subst compliant_loop.simps) (simp add: lt att')
  moreover have "check_world n lp m w (Suc a) = sleep1 w'" using att' by simp
  moreover have "int (Suc a) = int a + 1" by simp
  ultimately show ?case using Suc.IH [OF lt(1) rb] by (simp only:)
qed

text \<open>
  So the first attempt that returns decides the result, and the last attempt decides it
  when none returns.
\<close>

lemma compliant_loop_returns:
  assumes "int a < m" and "check_raises_before n lp m w a"
      and "check_attempt n lp m w a = (Inr b, w')"
  shows "is_mcp_compliant n lp m w = (Some b, w')"
proof -
  have "compliant_loop n lp m (int a) (check_world n lp m w a) = (Some b, w')"
    using assms(1,3) by (subst compliant_loop.simps) (simp add: check_attempt_def)
  then show ?thesis using compliant_loop_skip [OF assms(1,2)] by (simp add: is_mcp_compliant_def)
qed

lemma compliant_loop_gives_up:
  assumes "int a = m - 1" and "check_raises_before n lp m w (Suc a)"
  shows "is_mcp_compliant n lp m w = (Some False, snd (check_attempt n lp m w a))"
proof -
  have lt: "int a < m" "\<not> int a < m - 1" using assms(1) by simp_all
  have rb: "check_raises_before n lp m w a" and ra: "raised (check_attempt n lp m w a)"
    using assms(2) by (simp_all add: check_raises_before_Suc)
  obtain r w' where att: "check_attempt n lp m w a = (r, w')"
    by (cases "check_attempt n lp m w a")
  obtain e where r: "r = Inl e" using ra att by (cases r) (simp_all add: raised_def)
  have "compliant_loop n lp m (int a) (check_world n lp m w a) = (Some False, w')"
    using lt att r by (subst compliant_loop.simps) (simp add: check_attempt_def)
  then show ?thesis using compliant_loop_skip [OF lt(1) rb] att
    by (simp add: is_mcp_compliant_def)
qed

section \<open>The compliance predicate\<close>

lemma map_of_mem: "k \<in> fst ` set d \<longleftrightarrow> map_of d k \<noteq> None"
  by (simp add: map_of_eq_None_iff)

lemma mcp_indicators_inspectable:
  assumes "inspectable d" and "converts (JObj d)"
  shows "mcp_indicators (JObj d) = Inr (marker_dependency d \<or> marker_text d \<or> marker_tools_in d)"
proof (cases "map_of d ''capabilities''")
  case None
  then have "''capabilities'' \<notin> fst ` set d" by (simp add: map_of_eq_None_iff)
  then show ?thesis using assms None
    by (auto simp: mcp_indicators_def py_get_def py_keys_def py_in_def inspectable_def
                   marker_dependency_def marker_text_def marker_tools_in_def Let_def
             split: option.splits json.splits)
next
  case (Some c)
  then have "''capabilities'' \<in> fst ` set d" by (metis map_of_mem option.distinct(1))
  then show ?thesis using assms Some
    by (auto simp: mcp_indicators_def py_get_def py_keys_def py_in_def inspectable_def
                   marker_dependency_def marker_text_def marker_tools_in_def Let_def
             split: option.splits json.splits)
qed

text \<open>What \<^verbatim>\<open>json.loads\<close> returns has no integer beyond what converts.\<close>

lemma update_set: "set (AList.update k v al) \<subseteq> insert (k, v) (set al)"
  by (induction al) auto

lemma foldl_update_set:
  "set (foldl (\<lambda>d kv. AList.update (fst kv) (snd kv) d) acc ps) \<subseteq> set acc \<union> set ps"
proof (induction ps arbitrary: acc)
  case Nil
  then show ?case by simp
next
  case (Cons p ps)
  have "set (AList.update (fst p) (snd p) acc) \<subseteq> insert p (set acc)"
    using update_set [of "fst p" "snd p" acc] by simp
  then show ?case using Cons.IH [of "AList.update (fst p) (snd p) acc"] by auto
qed

lemma dict_of_pairs_set: "set (dict_of_pairs ps) \<subseteq> set ps"
  unfolding dict_of_pairs_def using foldl_update_set [of "[]" ps] by simp

lemma converts_JObj: "converts (JObj ps) \<longleftrightarrow> (\<forall>(k, v) \<in> set ps. converts v)"
  by (auto simp: list_all_iff)

lemma json_loads_converts: "converts j \<Longrightarrow> converts (json_loads j)"
proof (induction j)
  case (JArr xs)
  then show ?case by (simp add: list_all_iff)
next
  case (JObj ps)
  have "converts v" if h: "(k, v) \<in> set (map (map_prod id json_loads) ps)" for k v
  proof -
    obtain u where u: "(k, u) \<in> set ps" "v = json_loads u" using h by auto
    have "converts u" using JObj.prems u(1) unfolding converts_JObj by blast
    moreover have "u \<in> Basic_BNFs.snds (k, u)" by simp
    ultimately show ?thesis using JObj.IH u by blast
  qed
  then have "converts v" if "(k, v) \<in> set (dict_of_pairs (map (map_prod id json_loads) ps))" for k v
    using that dict_of_pairs_set [of "map (map_prod id json_loads) ps"] by blast
  then show ?case unfolding json_loads.simps converts_JObj by blast
qed simp_all

lemma resolve_manifest_converts: "fst (resolve_manifest n lp w) = Inr j \<Longrightarrow> converts j"
  by (auto simp: resolve_manifest_def npm_view_def subprocess_run_def check_package_json_def
                 json_loads_converts
           split: option.splits proc.splits content.splits fstate.splits if_splits)

text \<open>
  Claim C2, amended. When an attempt of the compliance check (the attempts before it
  having raised) resolves a manifest that is an object whose \<^verbatim>\<open>dependencies\<close>, if
  present, is an object and whose \<^verbatim>\<open>capabilities\<close>, if present, is an object, a list or a
  string, the check returns true if and only if some key of the dependencies starts with
  \<^verbatim>\<open>@modelcontextprotocol/\<close>, or the stringified manifest contains
  \<^verbatim>\<open>modelcontextprotocol\<close>, or \<^verbatim>\<open>tools\<close> is in the value of \<^verbatim>\<open>capabilities\<close> (a key of the
  object, an element of the list, a part of the string); with none of the three it
  returns false.
\<close>

theorem compliance_of_resolved_manifest:
  assumes "int a < max_retries"
      and "check_raises_before n lp max_retries w a"
      and "manifest_at n lp max_retries w a = Inr (JObj d)"
      and "inspectable d"
  shows "fst (is_mcp_compliant n lp max_retries w)
         = Some (marker_dependency d \<or> marker_text d \<or> marker_tools_in d)"
proof -
  let ?w1 = "emit (Checking n (int a + 1) max_retries) (check_world n lp max_retries w a)"
  obtain w' where res: "resolve_manifest n lp ?w1 = (Inr (JObj d), w')"
    using assms(3) by (cases "resolve_manifest n lp ?w1") (simp add: manifest_at_def)
  have cv: "converts (JObj d)" using resolve_manifest_converts [of n lp ?w1 "JObj d"] res by simp
  have att: "check_attempt n lp max_retries w a
             = (Inr (marker_dependency d \<or> marker_text d \<or> marker_tools_in d), w')"
    using res
    by (simp add: check_attempt_def compliance_attempt_def mcp_indicators_inspectable [OF assms(4) cv])
  show ?thesis using compliant_loop_returns [OF assms(1,2) att] by simp
qed

text \<open>
  Claim C2, as stated, on the manifest \<^verbatim>\<open>{"name": "pkg", "capabilities": ["tools"]}\<close>:
  the first attempt resolves it without an exception, it has none of the three markers
  of the claim (\<^verbatim>\<open>capabilities\<close> is not an object), and the check returns true.
\<close>

theorem tools_list_is_compliant:
  "manifest_at ''pkg'' None 3 tools_list_world 0 = Inr (JObj tools_list_manifest)
   \<and> \<not> marker_dependency tools_list_manifest
   \<and> \<not> marker_text tools_list_manifest
   \<and> \<not> marker_tools_key tools_list_manifest
   \<and> fst (is_mcp_compliant ''pkg'' None 3 tools_list_world) = Some True"
  by code_simp

text \<open>
  A manifest whose inspection raises is rejected after the retries, whatever its text
  contains: here \<^verbatim>\<open>dependencies\<close> is \<^verbatim>\<open>null\<close>, and \<^verbatim>\<open>.keys()\<close> raises on each attempt.
\<close>

lemma null_deps_is_rejected:
  "manifest_at ''srv'' (Some ''srv'') 3 null_deps_world 0 = Inr (JObj null_deps_manifest)
   \<and> marker_text null_deps_manifest
   \<and> \<not> inspectable null_deps_manifest
   \<and> fst (is_mcp_compliant ''srv'' (Some ''srv'') 3 null_deps_world) = Some False"
  by code_simp

text \<open>
  The second attempt decides when the first raised: on a machine whose first \<^verbatim>\<open>npm view\<close>
  fails, the check returns true for the manifest the second one prints.
\<close>

theorem compliance_of_resolved_manifest_witness:
  "int 1 < 3
   \<and> check_raises_before ''example-pkg'' None 3 flaky_world 1
   \<and> manifest_at ''example-pkg'' None 3 flaky_world 1 = Inr sdk_manifest
   \<and> inspectable [(''name'', JStr ''example-pkg''),
           (''dependencies'', JObj [(''@modelcontextprotocol/sdk'', JStr ''1.0'')])]
   \<and> fst (is_mcp_compliant ''example-pkg'' None 3 flaky_world) = Some True
   \<and> count_events is_check_attempt (snd (is_mcp_compliant ''example-pkg'' None 3 flaky_world)) = 2"
proof -
  let ?d = "[(''name'', JStr ''example-pkg''),
           (''dependencies'', JObj [(''@modelcontextprotocol/sdk'', JStr ''1.0'')])]"
  have a: "int 1 < 3" by simp
  have r: "check_raises_before ''example-pkg'' None 3 flaky_world 1" by code_simp
  have b: "manifest_at ''example-pkg'' None 3 flaky_world 1 = Inr (JObj ?d)"
    by code_simp
  have c: "inspectable ?d" by code_simp
  have d: "marker_dependency ?d" by code_simp
  have e: "count_events is_check_attempt (snd (is_mcp_compliant ''example-pkg'' None 3 flaky_world)) = 2"
    by code_simp
  show ?thesis using a r b c d e compliance_of_resolved_manifest [OF a r b c]
    by (simp add: sdk_manifest_def)
qed

section \<open>What the probes and the compliance check leave alone\<close>

lemma same_but_trace_refl [simp]: "same_but_trace w w"
  by (simp add: same_but_trace_def)

lemma same_but_trace_emit [simp]:
  "same_but_trace w (emit e w') = same_but_trace w w'"
  "same_but_trace (emit e w) w' = same_but_trace w w'"
  by (simp_all add: same_but_trace_def)

lemma same_but_trace_trans: "same_but_trace w w1 \<Longrightarrow> same_but_trace w1 w2 \<Longrightarrow> same_but_trace w w2"
  by (simp add: same_but_trace_def)

lemma subprocess_run_world [simp]: "snd (subprocess_run cmd w) = emit (Ran cmd) w"
  by (simp add: subprocess_run_def)

lemma probe_world [simp]: "snd (probe tool w) = emit (Ran [tool, ''--version'']) w"
  by (cases "subprocess_run [tool, ''--version''] w")
     (auto simp: probe_def subprocess_run_def split: proc.splits)

lemma probe_eq: "probe tool w = (b, w') \<Longrightarrow> w' = emit (Ran [tool, ''--version'']) w"
  using probe_world [of tool w] by simp

lemma check_environment_frame:
  assumes "\<And>c. \<not> P (Ran c)"
  shows "same_but_trace w (snd (check_environment w))
       \<and> count_events P (snd (check_environment w)) = count_events P w"
  by (auto simp: check_environment_def assms split: prod.splits sum.splits dest!: probe_eq)

lemma same_but_trace_registry:
  "same_but_trace w w' \<Longrightarrow> loaded_registry w' = loaded_registry w \<and> cfg_file w' = cfg_file w"
  by (simp add: same_but_trace_def loaded_registry_def)

lemma resolve_manifest_world:
  "snd (resolve_manifest n lp w) = w
   \<or> snd (resolve_manifest n lp w) = emit (Ran [''npm'', ''view'', n, ''--json'']) w"
  by (auto simp: resolve_manifest_def npm_view_def subprocess_run_def
           split: option.splits proc.splits content.splits)

lemma compliance_attempt_world:
  "snd (compliance_attempt n lp w) = w
   \<or> snd (compliance_attempt n lp w) = emit (Ran [''npm'', ''view'', n, ''--json'']) w"
  using resolve_manifest_world [of n lp w]
  by (auto simp: compliance_attempt_def split: prod.splits sum.splits)

lemma compliant_loop_frame:
  assumes "\<And>c. \<not> P (Ran c)" and "\<not> P Slept" and "\<And>n i m. \<not> P (Checking n i m)"
  shows "same_but_trace w (snd (compliant_loop n lp m a w))
       \<and> count_events P (snd (compliant_loop n lp m a w)) = count_events P w"
proof (induction n lp m a w rule: compliant_loop.induct)
  case (1 n lp m a w)
  let ?w1 = "emit (Checking n (a + 1) m) w"
  obtain r w' where att: "compliance_attempt n lp ?w1 = (r, w')"
    by (cases "compliance_attempt n lp ?w1")
  have w': "same_but_trace w w' \<and> count_events P w' = count_events P w"
    using compliance_attempt_world [of n lp ?w1] att assms by auto
  show ?case
  proof (cases "a < m")
    case False
    then show ?thesis by (subst (1 2) compliant_loop.simps) simp
  next
    case True
    show ?thesis
    proof (cases r)
      case (Inr b)
      then show ?thesis using True att w' by (subst (1 2) compliant_loop.simps) simp
    next
      case (Inl e)
      show ?thesis
      proof (cases "a < m - 1")
        case False
        then show ?thesis using True att w' Inl by (subst (1 2) compliant_loop.simps) simp
      next
        case T2: True
        have step: "compliant_loop n lp m a w = compliant_loop n lp m (a + 1) (sleep1 w')"
          by (subst compliant_loop.simps) (simp add: True att Inl T2)
        have ih: "same_but_trace (sleep1 w') (snd (compliant_loop n lp m (a + 1) (sleep1 w')))
              \<and> count_events P (snd (compliant_loop n lp m (a + 1) (sleep1 w')))
                  = count_events P (sleep1 w')"
          using "1.IH" [OF True att [symmetric] Inl T2] .
        have "same_but_trace w (sleep1 w')" using w' by (simp add: sleep1_def)
        then show ?thesis using ih w' assms(2)
          by (auto simp: step sleep1_def intro: same_but_trace_trans)
      qed
    qed
  qed
qed

lemma is_mcp_compliant_frame:
  assumes "\<And>c. \<not> P (Ran c)" and "\<not> P Slept" and "\<And>n i m. \<not> P (Checking n i m)"
  shows "same_but_trace w (snd (is_mcp_compliant n lp m w))
       \<and> count_events P (snd (is_mcp_compliant n lp m w)) = count_events P w"
  using compliant_loop_frame [of P w n lp m 0, OF assms] by (simp add: is_mcp_compliant_def)

section \<open>The registry-package install\<close>

text \<open>
  \<^verbatim>\<open>load_config\<close> returns the registry of the world or raises, leaves the file alone and
  makes the directory where it can; loading again gives the same.
\<close>

lemma load_config_world:
  "snd (load_config w)
   = (emit LoadConfig w)\<lparr>cfg_dir := (cfg_dir w \<or> (cfg_file w = Absent \<and> \<not> mkdir_raises w))\<rparr>"
  by (auto simp: load_config_def Let_def emit_def split: fstate.splits content.splits)

lemma load_config_returns: "load_config w = (Inr c, w') \<Longrightarrow> loaded_registry w = Some c"
  by (auto simp: load_config_def loaded_registry_def Let_def
           split: fstate.splits content.splits if_splits)


lemma load_config_keeps:
  "cfg_file (snd (load_config w)) = cfg_file w
   \<and> loaded_registry (snd (load_config w)) = loaded_registry w
   \<and> cfg_write (snd (load_config w)) = cfg_write w
   \<and> (loaded_registry w \<noteq> None \<longrightarrow> cfg_file w \<noteq> Blocked \<and> (cfg_file w = Absent \<longrightarrow> cfg_dir (snd (load_config w))))"
  by (auto simp: load_config_world loaded_registry_def split: fstate.splits content.splits)

lemma loaded_registry_converts: "loaded_registry w = Some c \<Longrightarrow> converts c"
  by (auto simp: loaded_registry_def json_loads_converts
           split: fstate.splits content.splits if_splits)

lemma generate_smithery_yaml_world:
  "cfg_file (snd (generate_smithery_yaml n c a e w)) = cfg_file w
   \<and> cfg_dir (snd (generate_smithery_yaml n c a e w)) = cfg_dir w
   \<and> trace (snd (generate_smithery_yaml n c a e w))
       = Emitted n c (case a of None \<Rightarrow> [] | Some x \<Rightarrow> x) (case e of None \<Rightarrow> [] | Some x \<Rightarrow> x) # trace w"
  by (simp add: generate_smithery_yaml_def Let_def)

lemma generate_smithery_yaml_count:
  "(\<And>n c a v. \<not> P (Emitted n c a v)) \<Longrightarrow>
   count_events P (snd (generate_smithery_yaml n c a e w)) = count_events P w"
  by (simp add: generate_smithery_yaml_def Let_def count_events_def)

lemma count_events_update [simp]:
  "count_events P (w\<lparr>cfg_dir := b\<rparr>) = count_events P w"
  "count_events P (w\<lparr>cfg_file := f\<rparr>) = count_events P w"
  by (simp_all add: count_events_def)

text \<open>
  \<^verbatim>\<open>save_config\<close> writes the value, or raises and leaves the file as it was or without
  JSON in it.
\<close>

lemma save_config_result:
  "save_config c w = Inr w' \<Longrightarrow> w' = emit (SaveConfig c) (w\<lparr>cfg_file := Holds (Json c)\<rparr>)"
  by (auto simp: save_config_def split: fstate.splits wstate.splits if_splits)

lemma save_config_raises:
  "save_config c w = Inl (x, w') \<Longrightarrow>
   w' = w \<or> (w' = w\<lparr>cfg_file := Holds NotJson\<rparr> \<and> (cfg_write w = Writes \<longrightarrow> \<not> converts c))"
  by (auto simp: save_config_def split: fstate.splits wstate.splits if_splits)

text \<open>Registering a server changes the entry of no other key.\<close>

lemma py_setitem_other_keys:
  assumes "py_setitem servers name entry = Inr servers'" and "k \<noteq> key_text name"
  shows "(case servers' of JObj s \<Rightarrow> map_of s k | _ \<Rightarrow> None)
       = (case servers of JObj s \<Rightarrow> map_of s k | _ \<Rightarrow> None)"
  using assms
  by (cases servers; cases name)
     (auto simp: py_setitem_def key_text_def update_conv' Let_def map_add_def
           split: option.splits if_splits)

lemma server_entry_alt:
  "server_entry (JObj d) k =
     (case map_of d ''mcpServers'' of None \<Rightarrow> None
      | Some servers \<Rightarrow> (case servers of JObj s \<Rightarrow> map_of s k | _ \<Rightarrow> None))"
  by (simp add: server_entry_def split: option.splits json.splits)

lemma register_server_other_keys:
  assumes "register_server c name entry = Inr c'" and "k \<noteq> key_text name"
  shows "server_entry c' k = server_entry c k"
proof -
  obtain d where c: "c = JObj d"
    using assms(1) by (cases c) (auto simp: register_server_def py_getitem_def split: sum.splits)
  obtain servers where s: "map_of d ''mcpServers'' = Some servers"
    using assms(1) c by (auto simp: register_server_def py_getitem_def split: option.splits)
  obtain servers' where s': "py_setitem servers name entry = Inr servers'"
    and c': "c' = JObj (AList.update ''mcpServers'' servers' d)"
    using assms(1) c s by (auto simp: register_server_def py_getitem_def split: sum.splits)
  show ?thesis using py_setitem_other_keys [OF s' assms(2)] c c' s
    by (simp add: server_entry_alt update_conv')
qed


text \<open>
  What the installers save has no integer that \<^verbatim>\<open>json.dump\<close> refuses: it is the loaded
  registry with an entry of strings.
\<close>

lemma server_config_converts: "converts (server_config cmd args env)"
  by (auto simp: server_config_def list_all_iff split: option.splits)

lemma converts_update:
  "converts (JObj d) \<Longrightarrow> converts v \<Longrightarrow> converts (JObj (AList.update k v d))"
  unfolding converts_JObj using update_set [of k v d] by blast

lemma py_setitem_converts:
  assumes "py_setitem x key v = Inr x'" and "converts x" and "converts v"
  shows "converts x'"
proof (cases x)
  case (JObj d)
  have cd: "converts (JObj d)" using assms(2) JObj by simp
  show ?thesis
  proof (cases key)
    case (JStr s)
    then show ?thesis using assms(1,3) JObj converts_update [OF cd, of v s]
      by (auto simp: py_setitem_def)
  next
    case (JInt i)
    then show ?thesis using assms JObj by (auto simp: py_setitem_def list_all_iff)
  next
    case (JBool b)
    then show ?thesis using assms JObj by (auto simp: py_setitem_def list_all_iff)
  next
    case JNull
    then show ?thesis using assms JObj by (auto simp: py_setitem_def list_all_iff)
  qed (use assms(1) JObj in \<open>simp_all add: py_setitem_def\<close>)
next
  case (JArr xs)
  have "converts y" if "y \<in> set (xs[i := v])" for y i
    using that assms(2,3) JArr set_update_subset_insert [of xs i v] by (auto simp: list_all_iff)
  then show ?thesis using assms(1) JArr
    by (auto simp: py_setitem_def Let_def list_all_iff split: option.splits if_splits)
qed (use assms(1) in \<open>simp_all add: py_setitem_def\<close>)

lemma register_server_converts:
  assumes "register_server c name entry = Inr c'" and "converts c" and "converts entry"
  shows "converts c'"
proof -
  obtain d where c: "c = JObj d"
    using assms(1) by (cases c) (auto simp: register_server_def py_getitem_def split: sum.splits)
  obtain servers where s: "map_of d ''mcpServers'' = Some servers"
    using assms(1) c by (auto simp: register_server_def py_getitem_def split: option.splits)
  obtain servers' where s': "py_setitem servers name entry = Inr servers'"
    and c': "c' = JObj (AList.update ''mcpServers'' servers' d)"
    using assms(1) c s by (auto simp: register_server_def py_getitem_def split: sum.splits)
  have "(''mcpServers'', servers) \<in> set d" using s by (rule map_of_SomeD)
  moreover have cd: "converts (JObj d)" using assms(2) unfolding c .
  ultimately have "converts servers" unfolding converts_JObj by blast
  then have "converts servers'" using py_setitem_converts [OF s' _ assms(3)] by simp
  then show ?thesis using converts_update [OF cd, of servers' "''mcpServers''"] c' by simp
qed


lemma generate_smithery_yaml_write [simp]:
  "cfg_write (snd (generate_smithery_yaml n c a e w)) = cfg_write w"
  by (simp add: generate_smithery_yaml_def Let_def emit_def)

text \<open>
  One attempt of the registry-package install either saves the registry it loaded with
  the new entry and returns \<^verbatim>\<open>True\<close>, or saves nothing: then the configuration file is as
  it was, or a write that failed has left it without JSON. It loads the configuration at
  most once.
\<close>

lemma install_attempt_cases:
  assumes "install_attempt n a e w = (r, w')"
  shows "((r = Inr True \<and> (\<exists>c c'. loaded_registry w = Some c
            \<and> register_server c (JStr n)
                 (server_config ''npx'' ([''-y'', n] @ (case a of None \<Rightarrow> [] | Some x \<Rightarrow> x)) e) = Inr c'
            \<and> cfg_file w' = Holds (Json c')
            \<and> count_events is_save w' = Suc (count_events is_save w)))
       \<or> (r \<noteq> Inr True
            \<and> (cfg_file w' = cfg_file w \<and> loaded_registry w' = loaded_registry w
               \<or> cfg_file w' = Holds NotJson \<and> cfg_write w \<noteq> Writes)
            \<and> count_events is_save w' = count_events is_save w))
       \<and> cfg_write w' = cfg_write w
       \<and> count_events is_install_attempt w' = count_events is_install_attempt w
       \<and> count_events is_load w' \<le> Suc (count_events is_load w)"
proof -
  obtain cr w1 where ce: "check_environment w = (cr, w1)" by (cases "check_environment w")
  have w1: "same_but_trace w w1" "count_events is_save w1 = count_events is_save w"
    "count_events is_install_attempt w1 = count_events is_install_attempt w"
    "count_events is_load w1 = count_events is_load w"
    using check_environment_frame [of is_save w] check_environment_frame [of is_install_attempt w]
          check_environment_frame [of is_load w] ce by simp_all
  note k1 = same_but_trace_registry [OF w1(1)]
  have cw1: "cfg_write w1 = cfg_write w" using w1(1) by (simp add: same_but_trace_def)
  show ?thesis
  proof (cases cr)
    case (Inl x)
    then show ?thesis using assms ce w1 k1 cw1 by (auto simp: install_attempt_def)
  next
    case (Inr st)
    show ?thesis
    proof (cases "\<not> node st \<or> \<not> npm st")
      case True
      then show ?thesis using assms ce Inr w1 k1 cw1 by (auto simp: install_attempt_def)
    next
      case ok: False
      obtain cmp w2 where ic: "is_mcp_compliant n None 3 w1 = (cmp, w2)"
        by (cases "is_mcp_compliant n None 3 w1")
      have w2: "same_but_trace w1 w2" "count_events is_save w2 = count_events is_save w1"
        "count_events is_install_attempt w2 = count_events is_install_attempt w1"
        "count_events is_load w2 = count_events is_load w1"
        using is_mcp_compliant_frame [of is_save w1 n None 3]
              is_mcp_compliant_frame [of is_install_attempt w1 n None 3]
              is_mcp_compliant_frame [of is_load w1 n None 3] ic by simp_all
      have w2': "cfg_file w2 = cfg_file w" "loaded_registry w2 = loaded_registry w"
        "cfg_write w2 = cfg_write w"
        "count_events is_save w2 = count_events is_save w"
        "count_events is_install_attempt w2 = count_events is_install_attempt w"
        "count_events is_load w2 = count_events is_load w"
        using w1 w2 k1 cw1 same_but_trace_registry [OF w2(1)]
        by (simp_all add: same_but_trace_def)
      show ?thesis
      proof (cases "cmp = Some True")
        case False
        then show ?thesis using assms ce Inr ic ok w2' by (auto simp: install_attempt_def)
      next
        case cmpT: True
        obtain lres w3 where lc: "load_config w2 = (lres, w3)" by (cases "load_config w2")
        have w3: "cfg_file w3 = cfg_file w" "loaded_registry w3 = loaded_registry w"
          "cfg_write w3 = cfg_write w"
          "count_events is_save w3 = count_events is_save w"
          "count_events is_install_attempt w3 = count_events is_install_attempt w"
          "count_events is_load w3 = Suc (count_events is_load w)"
          using load_config_keeps [of w2] load_config_world [of w2] lc w2' by simp_all
        let ?entry = "server_config ''npx'' ([''-y'', n] @ (case a of None \<Rightarrow> [] | Some x \<Rightarrow> x)) e"
        show ?thesis
        proof (cases lres)
          case (Inl x)
          have "install_attempt n a e w = (Inl x, w3)"
            using ce Inr ok ic cmpT lc Inl by (simp add: install_attempt_def)
          then show ?thesis using assms w3 by auto
        next
          case lr: (Inr c)
          have c: "loaded_registry w = Some c"
            using load_config_returns [of w2 c w3] lc lr w2' by simp
          show ?thesis
          proof (cases "register_server c (JStr n) ?entry")
            case (Inl x)
            have "install_attempt n a e w = (Inl x, w3)"
              using ce Inr ok ic cmpT lc lr Inl by (simp add: install_attempt_def Let_def)
            then show ?thesis using assms w3 by auto
          next
            case reg: (Inr c')
            show ?thesis
            proof (cases "save_config c' w3")
              case (Inl xw)
              obtain x w4 where xw: "xw = (x, w4)" by (cases xw)
              have att: "install_attempt n a e w = (Inl x, w4)"
                using ce Inr ok ic cmpT lc lr reg Inl xw by (simp add: install_attempt_def Let_def)
              have "converts c'"
                using register_server_converts [OF reg loaded_registry_converts [OF c]
                        server_config_converts] .
              then have "w4 = w3 \<or> (w4 = w3\<lparr>cfg_file := Holds NotJson\<rparr> \<and> cfg_write w \<noteq> Writes)"
                using save_config_raises [of c' w3 x w4] Inl xw w3 by auto
              then show ?thesis using assms att w3 by auto
            next
              case sv: (Inr w4)
              have w4: "w4 = emit (SaveConfig c') (w3\<lparr>cfg_file := Holds (Json c')\<rparr>)"
                using save_config_result [OF sv] .
              have att: "install_attempt n a e w
                  = (Inr True, snd (generate_smithery_yaml n ''npx''
                       (Some ([''-y'', n] @ (case a of None \<Rightarrow> [] | Some x \<Rightarrow> x))) e w4))"
                using ce Inr ok ic cmpT lc lr reg sv by (simp add: install_attempt_def Let_def)
              have r: "r = Inr True"
                and w': "w' = snd (generate_smithery_yaml n ''npx''
                       (Some ([''-y'', n] @ (case a of None \<Rightarrow> [] | Some x \<Rightarrow> x))) e w4)"
                using assms att by simp_all
              have "cfg_file w' = Holds (Json c')"
                using w' w4 by (simp add: generate_smithery_yaml_world)
              moreover have "count_events is_save w' = Suc (count_events is_save w)"
                "count_events is_install_attempt w' = count_events is_install_attempt w"
                "count_events is_load w' = Suc (count_events is_load w)"
                "cfg_write w' = cfg_write w"
                using w' w4 w3 by (simp_all add: generate_smithery_yaml_count)
              ultimately show ?thesis using r c reg by simp
            qed
          qed
        qed
      qed
    qed
  qed
qed

text \<open>The same for the whole loop, which makes at most \<open>max_retries\<close> attempts.\<close>

lemma loaded_registry_emit [simp]: "loaded_registry (emit ev w) = loaded_registry w"
  by (simp add: loaded_registry_def)

lemma loaded_registry_not_json: "cfg_file w = Holds NotJson \<Longrightarrow> loaded_registry w = None"
  by (simp add: loaded_registry_def)

lemma install_loop_cases:
  "((fst (install_loop n ar e m a w) = Some True
       \<and> (\<exists>c c'. loaded_registry w = Some c
            \<and> register_server c (JStr n)
                 (server_config ''npx'' ([''-y'', n] @ (case ar of None \<Rightarrow> [] | Some x \<Rightarrow> x)) e) = Inr c'
            \<and> cfg_file (snd (install_loop n ar e m a w)) = Holds (Json c')
            \<and> count_events is_save (snd (install_loop n ar e m a w)) = Suc (count_events is_save w)))
    \<or> (fst (install_loop n ar e m a w) \<noteq> Some True
       \<and> (cfg_file (snd (install_loop n ar e m a w)) = cfg_file w
            \<and> loaded_registry (snd (install_loop n ar e m a w)) = loaded_registry w
          \<or> cfg_file (snd (install_loop n ar e m a w)) = Holds NotJson \<and> cfg_write w \<noteq> Writes)
       \<and> count_events is_save (snd (install_loop n ar e m a w)) = count_events is_save w))
   \<and> cfg_write (snd (install_loop n ar e m a w)) = cfg_write w
   \<and> count_events is_install_attempt (snd (install_loop n ar e m a w))
       \<le> count_events is_install_attempt w + nat (m - a)"
proof (induction n ar e m a w rule: install_loop.induct)
  case (1 n ar e m a w)
  let ?w1 = "emit (Installing n (a + 1) m) w"
  obtain r w' where att: "install_attempt n ar e ?w1 = (r, w')"
    by (cases "install_attempt n ar e ?w1")
  note ac = install_attempt_cases [OF att]
  show ?case
  proof (cases "a < m")
    case False
    then show ?thesis by (subst (1 2 3 4 5 6 7 8 9) install_loop.simps) simp
  next
    case True
    have na: "nat (m - a) = Suc (nat (m - (a + 1)))" using True by auto
    show ?thesis
    proof (cases r)
      case (Inr b)
      have step: "install_loop n ar e m a w = (Some b, w')"
        by (subst install_loop.simps) (simp add: True att Inr)
      show ?thesis using ac Inr na by (auto simp: step)
    next
      case (Inl x)
      have fail: "cfg_file w' = cfg_file w \<and> loaded_registry w' = loaded_registry w
                  \<or> cfg_file w' = Holds NotJson \<and> cfg_write w \<noteq> Writes"
        "count_events is_save w' = count_events is_save w"
        "cfg_write w' = cfg_write w"
        "count_events is_install_attempt w' = Suc (count_events is_install_attempt w)"
        using ac Inl by simp_all
      show ?thesis
      proof (cases "a < m - 1")
        case False
        have step: "install_loop n ar e m a w = (Some False, w')"
          by (subst install_loop.simps) (simp add: True att Inl False)
        show ?thesis using fail na by (simp add: step)
      next
        case T2: True
        have step: "install_loop n ar e m a w = install_loop n ar e m (a + 1) (sleep1 w')"
          by (subst install_loop.simps) (simp add: True att Inl T2)
        define L where "L = install_loop n ar e m (a + 1) (sleep1 w')"
        have s: "cfg_file (sleep1 w') = cfg_file w'"
          "loaded_registry (sleep1 w') = loaded_registry w'"
          "cfg_write (sleep1 w') = cfg_write w"
          "count_events is_save (sleep1 w') = count_events is_save w"
          "count_events is_install_attempt (sleep1 w') = Suc (count_events is_install_attempt w)"
          using fail by (simp_all add: sleep1_def)
        note ih = "1.IH" [OF True att [symmetric] Inl T2, folded L_def, unfolded s]
        have cnt: "count_events is_install_attempt (snd L)
                   \<le> count_events is_install_attempt w + nat (m - a)"
          using ih na by simp
        have cw: "cfg_write (snd L) = cfg_write w" using ih by simp
        from fail(1) show ?thesis
        proof
          assume same: "cfg_file w' = cfg_file w \<and> loaded_registry w' = loaded_registry w"
          show ?thesis unfolding step L_def [symmetric]
            using ih cnt cw same by auto
        next
          assume bad: "cfg_file w' = Holds NotJson \<and> cfg_write w \<noteq> Writes"
          then have none: "loaded_registry w' = None" by (simp add: loaded_registry_not_json)
          show ?thesis unfolding step L_def [symmetric]
            using ih cnt cw bad none by auto
        qed
      qed
    qed
  qed
qed

section \<open>The attempts of the registry-package install\<close>






section \<open>What the registry-package install registers\<close>



text \<open>
  The same where the configuration file holds a registry and cannot be opened for
  writing: each of the three attempts fails in \<^verbatim>\<open>save_config\<close>, and the file is as it was.
\<close>

lemma read_only_config_install_fails:
  "fst (environment_at ''example-pkg'' None None 3 read_only_world 0)
     = Inr \<lparr>node = True, npm = True, uvx = True\<rparr>
   \<and> fst (is_mcp_compliant ''example-pkg'' None 3
             (snd (environment_at ''example-pkg'' None None 3 read_only_world 0))) = Some True
   \<and> registry_loadable read_only_world
   \<and> fst (install_mcp_server ''example-pkg'' None None 3 read_only_world) = Some False
   \<and> count_events is_install_attempt
       (snd (install_mcp_server ''example-pkg'' None None 3 read_only_world)) = 3
   \<and> cfg_file (snd (install_mcp_server ''example-pkg'' None None 3 read_only_world))
       = Holds (Json example_registry)"
  by code_simp



section \<open>The smithery subcommand\<close>

lemma env_loop_frame:
  "same_but_trace w (snd (env_loop tokens d w))
   \<and> ((\<forall>t. \<not> P (Warned t)) \<longrightarrow> count_events P (snd (env_loop tokens d w)) = count_events P w)"
proof (induction tokens arbitrary: d w)
  case Nil
  then show ?case by simp
next
  case (Cons t ts)
  show ?case
  proof (cases "CHR ''='' \<in> set t")
    case True
    then show ?thesis using Cons.IH by (simp split: prod.splits)
  next
    case False
    then show ?thesis
      using Cons.IH [where d = d and w = "emit (Warned t) w"] by (auto simp: same_but_trace_def)
  qed
qed

lemma process_env_frame:
  "same_but_trace w (snd (process_env e w))
   \<and> ((\<forall>t. \<not> P (Warned t)) \<longrightarrow> count_events P (snd (process_env e w)) = count_events P w)"
  using env_loop_frame [where w = w and d = "[]" and P = P]
  by (cases e) (simp_all add: process_env_def)

text \<open>
  Claim C5 fails on the code. For the command line \<^verbatim>\<open>smithery <name>\<close> without
  \<^verbatim>\<open>--command\<close> (any \<^verbatim>\<open>--args\<close> and \<^verbatim>\<open>--env\<close>), \<^verbatim>\<open>args.command\<close> is the default
  \<^verbatim>\<open>"npx"\<close> of the option, not \<^verbatim>\<open>"smithery"\<close>: no branch of \<^verbatim>\<open>main\<close> is taken but the
  last, which prints the help and exits with code 1. \<^verbatim>\<open>generate_smithery_yaml\<close> is not
  called and \<^verbatim>\<open>smithery.yaml\<close> is not written, whether or not it could be.
\<close>

theorem smithery_subcommand_prints_help:
  "fst (main (Smithery n None a e) w) = Exit 1
   \<and> smithery_yaml (snd (main (Smithery n None a e) w)) = smithery_yaml w
   \<and> count_events is_emit (snd (main (Smithery n None a e) w)) = count_events is_emit w"
proof -
  have m: "main (Smithery n None a e) w = (Exit 1, snd (process_env e w))"
    by (simp add: main_def parse_args_def no_attrs_def Let_def split: prod.splits)
  show ?thesis using process_env_frame [where w = w and e = e and P = is_emit]
    by (simp add: m same_but_trace_def)
qed

text \<open>
  The emitter runs from the command line only for \<^verbatim>\<open>--command smithery\<close>, and then with
  \<^verbatim>\<open>smithery\<close> as the command to write.
\<close>

lemma smithery_runs_only_when_named_so:
  "main (Smithery n (Some ''smithery'') a e) w
   = (case process_env e w of
        (env_dict, w1) \<Rightarrow>
          (case generate_smithery_yaml n ''smithery'' a (Some env_dict) w1 of
             (success, w2) \<Rightarrow> (Exit (if success then 0 else 1), w2)))"
  by (simp add: main_def parse_args_def no_attrs_def Let_def split: prod.splits)

lemma smithery_example:
  "fst (main (Smithery ''srv'' None None None) fresh_world) = Exit 1
   \<and> trace (snd (main (Smithery ''srv'' None None None) fresh_world)) = []
   \<and> cwd_writable fresh_world"
  by code_simp

section \<open>The local-path install\<close>

text \<open>
  The body of the local-path install either saves the registry it loaded with the new
  entry and returns \<^verbatim>\<open>True\<close>, or saves nothing: then the configuration file is as it
  was, or a write that failed has left it without JSON. It loads the configuration at
  most once and makes the three attempts of one compliance check at most.
\<close>

lemma check_package_json_same:
  "files w' = files w \<Longrightarrow> check_package_json p w' = check_package_json p w"
  by (simp add: check_package_json_def)

lemma local_name:
  assumes "check_package_json path w = Inr package_info"
      and "py_get package_info ''name'' (JStr (basename path)) = Inr name"
  shows "name = local_server_name path w"
  using assms by (cases package_info) (auto simp: local_server_name_def py_get_def split: option.splits)

lemma load_config_files [simp]: "files (snd (load_config w)) = files w"
  by (simp add: load_config_world)

lemma compliant_loop_attempts:
  "count_events is_check_attempt (snd (compliant_loop n lp m a w))
     \<le> count_events is_check_attempt w + nat (m - a)"
proof (induction n lp m a w rule: compliant_loop.induct)
  case (1 n lp m a w)
  let ?w1 = "emit (Checking n (a + 1) m) w"
  obtain r w' where att: "compliance_attempt n lp ?w1 = (r, w')"
    by (cases "compliance_attempt n lp ?w1")
  have w': "count_events is_check_attempt w' = Suc (count_events is_check_attempt w)"
    using compliance_attempt_frame [of n lp ?w1] att by simp
  show ?case
  proof (cases "a < m")
    case False
    then show ?thesis by (subst compliant_loop.simps) simp
  next
    case True
    have na: "nat (m - a) = Suc (nat (m - (a + 1)))" using True by auto
    show ?thesis
    proof (cases r)
      case (Inr b)
      then show ?thesis using True att w' na by (subst compliant_loop.simps) simp
    next
      case (Inl x)
      show ?thesis
      proof (cases "a < m - 1")
        case False
        then show ?thesis using True att w' Inl na by (subst compliant_loop.simps) simp
      next
        case T2: True
        have step: "compliant_loop n lp m a w = compliant_loop n lp m (a + 1) (sleep1 w')"
          by (subst compliant_loop.simps) (simp add: True att Inl T2)
        show ?thesis using "1.IH" [OF True att [symmetric] Inl T2] w' na
          by (simp add: step sleep1_def)
      qed
    qed
  qed
qed

lemma install_local_body_cases:
  assumes "install_local_body path a e w = (r, w')"
  shows "((r = Inr True \<and> (\<exists>c c'. loaded_registry w = Some c
            \<and> register_server c (local_server_name path w)
                 (server_config ''node'' ([path_join path ''index.js'']
                      @ (case a of None \<Rightarrow> [] | Some x \<Rightarrow> x)) e) = Inr c'
            \<and> cfg_file w' = Holds (Json c')
            \<and> count_events is_save w' = Suc (count_events is_save w)))
       \<or> (r \<noteq> Inr True
            \<and> (cfg_file w' = cfg_file w \<or> cfg_file w' = Holds NotJson \<and> cfg_write w \<noteq> Writes)
            \<and> count_events is_save w' = count_events is_save w))
       \<and> count_events is_load w' \<le> Suc (count_events is_load w)
       \<and> count_events is_check_attempt w' \<le> count_events is_check_attempt w + 3"
proof (cases "path_exists w path")
  case False
  then show ?thesis using assms by (auto simp: install_local_body_def)
next
  case ex: True
  obtain cmp w1 where ic: "is_mcp_compliant (basename path) (Some path) 3 w = (cmp, w1)"
    by (cases "is_mcp_compliant (basename path) (Some path) 3 w")
  have w1: "same_but_trace w w1" "count_events is_save w1 = count_events is_save w"
    "count_events is_load w1 = count_events is_load w"
    using is_mcp_compliant_frame [of is_save w "basename path" "Some path" 3]
          is_mcp_compliant_frame [of is_load w "basename path" "Some path" 3] ic by simp_all
  have ca: "count_events is_check_attempt w1 \<le> count_events is_check_attempt w + 3"
    using compliant_loop_attempts [of "basename path" "Some path" 3 0 w] ic
    by (simp add: is_mcp_compliant_def)
  have w1': "cfg_file w1 = cfg_file w" "files w1 = files w" "cfg_write w1 = cfg_write w"
    "loaded_registry w1 = loaded_registry w"
    using w1 same_but_trace_registry [OF w1(1)] by (simp_all add: same_but_trace_def)
  show ?thesis
  proof (cases "cmp = Some True")
    case False
    then show ?thesis using assms ex ic w1 w1' ca by (auto simp: install_local_body_def)
  next
    case cmpT: True
    obtain lres w2 where lc: "load_config w1 = (lres, w2)" by (cases "load_config w1")
    have w2: "cfg_file w2 = cfg_file w" "cfg_write w2 = cfg_write w"
      "count_events is_save w2 = count_events is_save w"
      "count_events is_load w2 = Suc (count_events is_load w)"
      "count_events is_check_attempt w2 \<le> count_events is_check_attempt w + 3"
      using load_config_keeps [of w1] load_config_world [of w1] lc w1 w1' ca by simp_all
    have cpj: "check_package_json path w2 = check_package_json path w"
      using w1' lc load_config_files [of w1] by (simp add: check_package_json_def)
    let ?args = "[path_join path ''index.js''] @ (case a of None \<Rightarrow> [] | Some x \<Rightarrow> x)"
    let ?entry = "server_config ''node'' ?args e"
    show ?thesis
    proof (cases lres)
      case (Inl x)
      have "install_local_body path a e w = (Inl x, w2)"
        using ex ic cmpT lc Inl by (simp add: install_local_body_def)
      then show ?thesis using assms w2 by auto
    next
      case lr: (Inr c)
      have c: "loaded_registry w = Some c"
        using load_config_returns [of w1 c w2] lc lr w1' by simp
      show ?thesis
      proof (cases "check_package_json path w")
        case (Inl x)
        have "install_local_body path a e w = (Inl x, w2)"
          using ex ic cmpT lc lr cpj Inl by (simp add: install_local_body_def)
        then show ?thesis using assms w2 by auto
      next
        case pi: (Inr package_info)
        show ?thesis
        proof (cases "py_get package_info ''name'' (JStr (basename path))")
          case (Inl x)
          have "install_local_body path a e w = (Inl x, w2)"
            using ex ic cmpT lc lr cpj pi Inl by (simp add: install_local_body_def)
          then show ?thesis using assms w2 by auto
        next
          case nm: (Inr name)
          have name: "name = local_server_name path w" using local_name [OF pi nm] .
          show ?thesis
          proof (cases "register_server c name ?entry")
            case (Inl x)
            have "install_local_body path a e w = (Inl x, w2)"
              using ex ic cmpT lc lr cpj pi nm Inl by (simp add: install_local_body_def Let_def)
            then show ?thesis using assms w2 by auto
          next
            case reg: (Inr c')
            show ?thesis
            proof (cases "save_config c' w2")
              case (Inl xw)
              obtain x w3 where xw: "xw = (x, w3)" by (cases xw)
              have att: "install_local_body path a e w = (Inl x, w3)"
                using ex ic cmpT lc lr cpj pi nm reg Inl xw
                by (simp add: install_local_body_def Let_def)
              have "converts c'"
                using register_server_converts [OF reg loaded_registry_converts [OF c]
                        server_config_converts] .
              then have "w3 = w2 \<or> (w3 = w2\<lparr>cfg_file := Holds NotJson\<rparr> \<and> cfg_write w \<noteq> Writes)"
                using save_config_raises [of c' w2 x w3] Inl xw w2 by auto
              then show ?thesis using assms att w2 by auto
            next
              case sv: (Inr w3)
              have w3: "w3 = emit (SaveConfig c') (w2\<lparr>cfg_file := Holds (Json c')\<rparr>)"
                using save_config_result [OF sv] .
              have att: "install_local_body path a e w
                  = (Inr True, snd (generate_smithery_yaml (py_str name) ''node'' (Some ?args) e w3))"
                using ex ic cmpT lc lr cpj pi nm reg sv
                by (simp add: install_local_body_def Let_def)
              have r: "r = Inr True"
                and w': "w' = snd (generate_smithery_yaml (py_str name) ''node'' (Some ?args) e w3)"
                using assms att by simp_all
              have "cfg_file w' = Holds (Json c')"
                using w' w3 by (simp add: generate_smithery_yaml_world)
              moreover have "count_events is_save w' = Suc (count_events is_save w)"
                "count_events is_load w' = Suc (count_events is_load w)"
                "count_events is_check_attempt w' \<le> count_events is_check_attempt w + 3"
                using w' w3 w2 by (simp_all add: generate_smithery_yaml_count)
              ultimately show ?thesis using r c reg name by simp
            qed
          qed
        qed
      qed
    qed
  qed
qed

lemma install_local_cases:
  "((fst (install_local_mcp_server path a e m w) = True
       \<and> (\<exists>c c'. loaded_registry w = Some c
            \<and> register_server c (local_server_name path w)
                 (server_config ''node'' ([path_join path ''index.js'']
                      @ (case a of None \<Rightarrow> [] | Some x \<Rightarrow> x)) e) = Inr c'
            \<and> cfg_file (snd (install_local_mcp_server path a e m w)) = Holds (Json c')
            \<and> count_events is_save (snd (install_local_mcp_server path a e m w))
                = Suc (count_events is_save w)))
    \<or> (fst (install_local_mcp_server path a e m w) = False
       \<and> (cfg_file (snd (install_local_mcp_server path a e m w)) = cfg_file w
          \<or> cfg_file (snd (install_local_mcp_server path a e m w)) = Holds NotJson
            \<and> cfg_write w \<noteq> Writes)
       \<and> count_events is_save (snd (install_local_mcp_server path a e m w)) = count_events is_save w))
   \<and> count_events is_load (snd (install_local_mcp_server path a e m w))
       \<le> Suc (count_events is_load w)
   \<and> count_events is_check_attempt (snd (install_local_mcp_server path a e m w))
       \<le> count_events is_check_attempt w + 3"
proof -
  obtain r w' where b: "install_local_body path a e w = (r, w')"
    by (cases "install_local_body path a e w")
  show ?thesis
  proof (cases r)
    case (Inl x)
    then show ?thesis using install_local_body_cases [OF b] b
      by (simp add: install_local_mcp_server_def)
  next
    case (Inr res)
    then show ?thesis using install_local_body_cases [OF b] b
      by (cases res) (simp_all add: install_local_mcp_server_def)
  qed
qed

section \<open>What an install changes in the registry\<close>

text \<open>
  Claim C9. When an install of a server named \<open>X\<close> succeeds, the configuration file holds
  the registry that was loaded, changed at the key \<open>X\<close> only: under every other key the
  saved registry has the entry the loaded one had, or none if it had none. For the
  registry-package install \<open>X\<close> is the package name; for the local-path install it is the
  name in the manifest, or the base name of the path, as \<^verbatim>\<open>json.dump\<close> writes it.
\<close>

theorem install_changes_only_its_entry:
  "(fst (install_mcp_server name args env max_retries w) = Some True \<longrightarrow>
      (\<exists>c c'. loaded_registry w = Some c
          \<and> cfg_file (snd (install_mcp_server name args env max_retries w)) = Holds (Json c')
          \<and> (\<forall>k. k \<noteq> name \<longrightarrow> server_entry c' k = server_entry c k)))
   \<and> (fst (install_local_mcp_server path args env max_retries w) \<longrightarrow>
      (\<exists>c c'. loaded_registry w = Some c
          \<and> cfg_file (snd (install_local_mcp_server path args env max_retries w)) = Holds (Json c')
          \<and> (\<forall>k. k \<noteq> key_text (local_server_name path w)
                 \<longrightarrow> server_entry c' k = server_entry c k)))"
proof -
  define r where "r = install_mcp_server name args env max_retries w"
  define l where "l = install_local_mcp_server path args env max_retries w"
  define entry where "entry = server_config ''npx'' ([''-y'', name]
                        @ (case args of None \<Rightarrow> [] | Some x \<Rightarrow> x)) env"
  define lentry where "lentry = server_config ''node'' ([path_join path ''index.js'']
                        @ (case args of None \<Rightarrow> [] | Some x \<Rightarrow> x)) env"
  have kt: "key_text (JStr name) = name" by (simp add: key_text_def)
  have rc: "(fst r = Some True \<and> (\<exists>c c'. loaded_registry w = Some c
               \<and> register_server c (JStr name) entry = Inr c' \<and> cfg_file (snd r) = Holds (Json c')))
          \<or> fst r \<noteq> Some True"
    using install_loop_cases [of name args env max_retries 0 w]
    unfolding r_def entry_def install_mcp_server_def by blast
  have lc: "(fst l \<and> (\<exists>c c'. loaded_registry w = Some c
               \<and> register_server c (local_server_name path w) lentry = Inr c'
               \<and> cfg_file (snd l) = Holds (Json c')))
          \<or> \<not> fst l"
    using install_local_cases [of path args env max_retries w]
    unfolding l_def lentry_def by auto
  have 1: "fst r = Some True \<longrightarrow>
      (\<exists>c c'. loaded_registry w = Some c \<and> cfg_file (snd r) = Holds (Json c')
          \<and> (\<forall>k. k \<noteq> name \<longrightarrow> server_entry c' k = server_entry c k))"
  proof
    assume "fst r = Some True"
    then obtain c c' where c: "loaded_registry w = Some c"
      and reg: "register_server c (JStr name) entry = Inr c'"
      and f: "cfg_file (snd r) = Holds (Json c')"
      using rc by blast
    have "\<forall>k. k \<noteq> name \<longrightarrow> server_entry c' k = server_entry c k"
      using register_server_other_keys [OF reg] kt by simp
    then show "\<exists>c c'. loaded_registry w = Some c \<and> cfg_file (snd r) = Holds (Json c')
          \<and> (\<forall>k. k \<noteq> name \<longrightarrow> server_entry c' k = server_entry c k)"
      using c f by blast
  qed
  have 3: "fst l \<longrightarrow>
      (\<exists>c c'. loaded_registry w = Some c \<and> cfg_file (snd l) = Holds (Json c')
          \<and> (\<forall>k. k \<noteq> key_text (local_server_name path w)
                 \<longrightarrow> server_entry c' k = server_entry c k))"
  proof
    assume "fst l"
    then obtain c c' where c: "loaded_registry w = Some c"
      and reg: "register_server c (local_server_name path w) lentry = Inr c'"
      and f: "cfg_file (snd l) = Holds (Json c')"
      using lc by blast
    have "\<forall>k. k \<noteq> key_text (local_server_name path w) \<longrightarrow> server_entry c' k = server_entry c k"
      using register_server_other_keys [OF reg] by simp
    then show "\<exists>c c'. loaded_registry w = Some c \<and> cfg_file (snd l) = Holds (Json c')
          \<and> (\<forall>k. k \<noteq> key_text (local_server_name path w)
                 \<longrightarrow> server_entry c' k = server_entry c k)"
      using c f by blast
  qed
  show ?thesis using 1 3 unfolding r_def l_def by blast
qed

theorem install_changes_only_its_entry_witness:
  "fst (install_mcp_server ''example-pkg'' None None 3 stocked_world) = Some True
   \<and> fst (install_local_mcp_server ''srv'' None None 3 stocked_world)
   \<and> (\<exists>c c'. loaded_registry stocked_world = Some c
         \<and> cfg_file (snd (install_mcp_server ''example-pkg'' None None 3 stocked_world)) = Holds (Json c')
         \<and> server_entry c' ''a'' = server_entry c ''a'')
   \<and> (\<exists>c c'. loaded_registry stocked_world = Some c
         \<and> cfg_file (snd (install_local_mcp_server ''srv'' None None 3 stocked_world)) = Holds (Json c')
         \<and> server_entry c' ''a'' = server_entry c ''a'')
   \<and> server_entry example_registry ''a'' = Some (server_config ''npx'' [''-y'', ''a''] (Some [(''K'', ''v'')]))"
proof -
  define r where "r = install_mcp_server ''example-pkg'' None None 3 stocked_world"
  define l where "l = install_local_mcp_server ''srv'' None None 3 stocked_world"
  have a: "fst r = Some True" unfolding r_def by code_simp
  have b: "fst l" unfolding l_def by code_simp
  have n: "key_text (local_server_name ''srv'' stocked_world) = ''local-srv''" by code_simp
  have e: "server_entry example_registry ''a'' = Some (server_config ''npx'' [''-y'', ''a''] (Some [(''K'', ''v'')]))"
    by code_simp
  note t = install_changes_only_its_entry [of "''example-pkg''" None None 3 stocked_world "''srv''",
             folded r_def l_def]
  from t a obtain c c' where 1: "loaded_registry stocked_world = Some c"
    "cfg_file (snd r) = Holds (Json c')"
    "\<forall>k. k \<noteq> ''example-pkg'' \<longrightarrow> server_entry c' k = server_entry c k"
    by blast
  from t b n obtain d d' where 2: "loaded_registry stocked_world = Some d"
    "cfg_file (snd l) = Holds (Json d')"
    "\<forall>k. k \<noteq> ''local-srv'' \<longrightarrow> server_entry d' k = server_entry d k"
    by auto
  have 3: "server_entry c' ''a'' = server_entry c ''a''" using 1(3) by simp
  have 4: "server_entry d' ''a'' = server_entry d ''a''" using 2(3) by simp
  show ?thesis using a b 1 2 3 4 e unfolding r_def l_def by blast
qed


section \<open>Retries and failures of the installers\<close>










text \<open>
  With \<^verbatim>\<open>url --auto-detect\<close> and a GitHub URL, \<^verbatim>\<open>main\<close> runs \<^verbatim>\<open>git clone\<close> with
  \<^verbatim>\<open>check=True\<close> outside every \<^verbatim>\<open>try\<close>: when the clone fails the exception leaves
  \<^verbatim>\<open>main\<close>, no installer is called and there is no boolean result.
\<close>

lemma clone_failure_is_not_caught:
  assumes "py_contains ''github.com'' u"
      and "fst (subprocess_run [''git'', ''clone'', u, basename u]
                  (fetch_package_metadata_world u (snd (process_env tokens w)))) = Failed"
  shows "fst (main (Url u args tokens True) w) = Uncaught CalledProcessError"
  using assms
  by (auto simp: main_def parse_args_def no_attrs_def Let_def split: prod.splits proc.splits)

lemma clone_failure_example:
  "fst (main (Url ''https://github.com/x/y'' None None True) clone_fails_world)
     = Uncaught CalledProcessError
   \<and> trace (snd (main (Url ''https://github.com/x/y'' None None True) clone_fails_world))
     = [Ran [''git'', ''clone'', ''https://github.com/x/y'', ''y''],
        Ran [''curl'', ''-s'', ''https://raw.githubusercontent.com/x/y/package.json'']]"
  by code_simp



end
